theory Spec2Isabelle
  imports Main
begin

section \<open>Time values\<close>

text \<open>
  A Go \<^verbatim>\<open>time.Time\<close> is an instant together with a location. The instant is counted in
  nanoseconds from the zero time (January 1 of year 1, 00:00:00 UTC), so that the zero value
  of the struct is instant 0 in UTC. \<^verbatim>\<open>After\<close> compares instants only.

  The location of a \<^verbatim>\<open>Time\<close> is a pointer, \<^verbatim>\<open>*time.Location\<close>, and \<^verbatim>\<open>==\<close> and \<^verbatim>\<open>!=\<close> on
  two \<^verbatim>\<open>Time\<close> values compare the pointers. \<open>UTC\<close> is the nil pointer and \<open>Local\<close> the
  pointer to the one local zone. \<open>FixedZone a name offset\<close> is the pointer at address \<open>a\<close>
  to a \<^verbatim>\<open>Location\<close> made by \<^verbatim>\<open>time.FixedZone(name, offset)\<close>: two fixed zones of the same
  name and offset at two addresses are two different locations, as they are in Go.
\<close>

datatype time_Location = UTC | Local | FixedZone nat string int

record Time =
  instant :: int
  loc :: time_Location

definition zeroTime :: Time where
  "zeroTime = \<lparr>instant = 0, loc = UTC\<rparr>"

definition After :: "Time \<Rightarrow> Time \<Rightarrow> bool" where
  "After t u = (instant u < instant t)"

section \<open>Raw calendar events\<close>

text \<open>
  The fields of \<^verbatim>\<open>calendar.Event\<close> (Google Calendar API, v3) that the program reads.
  \<^verbatim>\<open>Start\<close>, \<^verbatim>\<open>End\<close> and \<^verbatim>\<open>ConferenceData\<close> are pointers: \<open>None\<close> is the nil pointer.
  The elements of the slices (items, attendees, entry points) are taken as present.
\<close>

record calendar_EventDateTime =
  Date :: string
  DateTime :: string

record calendar_EventAttendee =
  Self :: bool
  ResponseStatus :: string

record calendar_EntryPoint =
  Uri :: string
  MeetingCode :: string
  Password :: string

record calendar_ConferenceData =
  EntryPoints :: "calendar_EntryPoint list"

record calendar_Event =
  ColorId :: string
  Summary :: string
  Location :: string
  HtmlLink :: string
  Attendees :: "calendar_EventAttendee list"
  ConferenceData :: "calendar_ConferenceData option"
  Start :: "calendar_EventDateTime option"
  End :: "calendar_EventDateTime option"

section \<open>Intervals\<close>

text \<open>\<^verbatim>\<open>type Event struct { Start, End time.Time }\<close>\<close>

record Event =
  Start :: Time
  End :: Time

section \<open>The interval collapser\<close>

text \<open>
  \<^verbatim>\<open>collapse\<close> seeds the open interval \<^verbatim>\<open>ev\<close> with the first element and walks over
  \<^verbatim>\<open>in[1:]\<close>. The loop carries \<^verbatim>\<open>ev\<close> and \<^verbatim>\<open>out\<close>; the final open interval is appended
  after the loop.
\<close>

fun collapse_loop :: "Event \<Rightarrow> Event list \<Rightarrow> Event list \<Rightarrow> Event list" where
  "collapse_loop ev out [] = out @ [ev]"
| "collapse_loop ev out (i # rest) =
     (if After (Start i) (End ev)
      then collapse_loop \<lparr>Start = Start i, End = End i\<rparr> (out @ [ev]) rest
      else if After (End i) (End ev)
      then collapse_loop (ev\<lparr>End := End i\<rparr>) out rest
      else collapse_loop ev out rest)"

fun collapse :: "Event list \<Rightarrow> Event list" where
  "collapse [] = []"
| "collapse (x # xs) = collapse_loop \<lparr>Start = Start x, End = End x\<rparr> [] xs"

subsection \<open>Notions used to state the collapser's properties\<close>

definition ascending :: "Event list \<Rightarrow> bool" where
  "ascending xs = sorted (map (\<lambda>e. instant (Start e)) xs)"

fun separated :: "Event list \<Rightarrow> bool" where
  "separated [] = True"
| "separated [a] = True"
| "separated (a # b # rest) = (After (Start b) (End a) \<and> separated (b # rest))"

definition covers :: "Event list \<Rightarrow> int \<Rightarrow> bool" where
  "covers xs t = list_ex (\<lambda>e. instant (Start e) \<le> t \<and> t \<le> instant (End e)) xs"

definition covers_open :: "Event list \<Rightarrow> int \<Rightarrow> bool" where
  "covers_open xs t = list_ex (\<lambda>e. instant (Start e) \<le> t \<and> t < instant (End e)) xs"

definition mk :: "int \<Rightarrow> int \<Rightarrow> Event" where
  "mk s e = \<lparr>Start = \<lparr>instant = s, loc = UTC\<rparr>, End = \<lparr>instant = e, loc = UTC\<rparr>\<rparr>"

section \<open>Library functions\<close>

text \<open>
  The functions of Go's standard library that the program calls are parameters of the model:
  \<^verbatim>\<open>time.Parse\<close> (layout, then value; \<open>None\<close> when it returns an error),
  \<^verbatim>\<open>Time.Format\<close>, \<^verbatim>\<open>Time.Year\<close>, \<^verbatim>\<open>Time.Month\<close>, \<^verbatim>\<open>Time.Day\<close>, \<^verbatim>\<open>time.Date\<close>, and
  \<^verbatim>\<open>utf8.RuneCountInString\<close>, which \<^verbatim>\<open>fmt\<close> uses to pad a string to a width.
\<close>

record stdlib =
  time_Parse :: "string \<Rightarrow> string \<Rightarrow> Time option"
  time_Format :: "Time \<Rightarrow> string \<Rightarrow> string"
  time_Year :: "Time \<Rightarrow> int"
  time_Month :: "Time \<Rightarrow> int"
  time_Day :: "Time \<Rightarrow> int"
  time_Date :: "int \<Rightarrow> int \<Rightarrow> int \<Rightarrow> int \<Rightarrow> int \<Rightarrow> int \<Rightarrow> int \<Rightarrow> time_Location \<Rightarrow> Time"
  RuneCountInString :: "string \<Rightarrow> nat"

definition RFC3339 :: string where
  "RFC3339 = ''2006-01-02T15:04:05Z07:00''"

text \<open>
  For a timestamp at an offset that is not the local one, \<^verbatim>\<open>time.Parse\<close> calls
  \<^verbatim>\<open>time.FixedZone\<close>, which allocates a new \<^verbatim>\<open>Location\<close> at every call (Go 1.15, the
  version of \<^verbatim>\<open>go.mod\<close>). The address of that \<^verbatim>\<open>Location\<close> is therefore not the library
  parameter's to choose: \<open>newLocation a t\<close> puts the fixed zone of \<open>t\<close> at address \<open>a\<close>, and
  the program counts the calls of \<^verbatim>\<open>parseDay\<close> to give each call an address of its own.
\<close>

definition newLocation :: "nat \<Rightarrow> Time \<Rightarrow> Time" where
  "newLocation a t =
     (case loc t of
        FixedZone b name off \<Rightarrow> t\<lparr>loc := FixedZone a name off\<rparr>
      | _ \<Rightarrow> t)"

section \<open>The field resolver\<close>

fun parseDay_loop :: "stdlib \<Rightarrow> string list \<Rightarrow> string \<Rightarrow> Time option" where
  "parseDay_loop L [] d = None"
| "parseDay_loop L (format # formats) d =
     (case time_Parse L format d of
        Some t \<Rightarrow> Some t
      | None \<Rightarrow> parseDay_loop L formats d)"

definition parseDay :: "stdlib \<Rightarrow> string \<Rightarrow> Time option" where
  "parseDay L d = parseDay_loop L [''2006-01-02'', RFC3339] d"

definition truncDay :: "stdlib \<Rightarrow> Time \<Rightarrow> Time" where
  "truncDay L t = time_Date L (time_Year L t) (time_Month L t) (time_Day L t) 0 0 0 0 (loc t)"

text \<open>
  \<^verbatim>\<open>startDateFrom\<close> and \<^verbatim>\<open>endDateFrom\<close> read through the pointer; on a nil pointer the
  program panics, which is the value \<open>None\<close> here.
\<close>

definition startDateFrom :: "calendar_Event \<Rightarrow> string option" where
  "startDateFrom event =
     (case calendar_Event.Start event of
        None \<Rightarrow> None
      | Some s \<Rightarrow> Some (if DateTime s = [] then Date s else DateTime s))"

definition endDateFrom :: "calendar_Event \<Rightarrow> string option" where
  "endDateFrom event =
     (case calendar_Event.End event of
        None \<Rightarrow> None
      | Some e \<Rightarrow> Some (if DateTime e = [] then Date e else DateTime e))"

fun rspStatus_loop :: "calendar_EventAttendee list \<Rightarrow> string" where
  "rspStatus_loop [] = []"
| "rspStatus_loop (a # as) = (if Self a then ResponseStatus a else rspStatus_loop as)"

definition rspStatusFrom :: "calendar_Event \<Rightarrow> string" where
  "rspStatusFrom event = rspStatus_loop (Attendees event)"

subsection \<open>The pattern \<^verbatim>\<open>https?://(\S)+\<close>\<close>

text \<open>
  \<^verbatim>\<open>\S\<close> is any character but tab, newline, form feed, carriage return and space.
  \<open>match_tail\<close> matches \<^verbatim>\<open>://(\S)+\<close> at the head of a string and \<open>match_here\<close> the
  whole pattern, trying the optional \<^verbatim>\<open>s\<close> first; both give the length of the match.
  \<^verbatim>\<open>FindString\<close> returns the leftmost match, or the empty string.
\<close>

definition isSpace :: "char \<Rightarrow> bool" where
  "isSpace c = (c \<in> set [CHR 0x09, CHR 0x0A, CHR 0x0C, CHR 0x0D, CHR '' ''])"

definition match_tail :: "string \<Rightarrow> nat option" where
  "match_tail r =
     (if take 3 r = ''://'' \<and> takeWhile (\<lambda>c. \<not> isSpace c) (drop 3 r) \<noteq> []
      then Some (3 + length (takeWhile (\<lambda>c. \<not> isSpace c) (drop 3 r)))
      else None)"

definition match_here :: "string \<Rightarrow> nat option" where
  "match_here s =
     (if take 4 s = ''http''
      then (case (if take 1 (drop 4 s) = ''s'' then match_tail (drop 5 s) else None) of
              Some n \<Rightarrow> Some (5 + n)
            | None \<Rightarrow> map_option (\<lambda>n. 4 + n) (match_tail (drop 4 s)))
      else None)"

fun findUrl_FindString :: "string \<Rightarrow> string" where
  "findUrl_FindString s =
     (case match_here s of
        Some n \<Rightarrow> take n s
      | None \<Rightarrow> (case s of [] \<Rightarrow> [] | c # cs \<Rightarrow> findUrl_FindString cs))"

fun zoomFrom_loop :: "calendar_EntryPoint list \<Rightarrow> string" where
  "zoomFrom_loop [] = []"
| "zoomFrom_loop (ep # eps) =
     (if MeetingCode ep \<noteq> []
      then Uri ep @ '' (meeting:'' @ MeetingCode ep @ '' pass:'' @ Password ep @ '')''
      else zoomFrom_loop eps)"

definition zoomFrom :: "calendar_ConferenceData option \<Rightarrow> string" where
  "zoomFrom conf = (case conf of None \<Rightarrow> [] | Some c \<Rightarrow> zoomFrom_loop (EntryPoints c))"

definition urlFrom :: "calendar_Event \<Rightarrow> string" where
  "urlFrom event =
     (let l = findUrl_FindString (Location event);
          l = (if l = [] then zoomFrom (ConferenceData event) else l);
          l = (if l = [] then Location event else l)
      in l)"

section \<open>The main loop\<close>

definition newline :: string where
  "newline = [CHR 0x0A]"

definition separator :: string where
  "separator = ''----------------------'' @ newline"

text \<open>\<^verbatim>\<open>%-40s\<close>: the string, then spaces up to a width of 40 runes.\<close>

definition pad40 :: "stdlib \<Rightarrow> string \<Rightarrow> string" where
  "pad40 L s = s @ replicate (40 - RuneCountInString L s) CHR '' ''"

text \<open>
  The state of the loop: the variables \<^verbatim>\<open>prevDay\<close> and \<^verbatim>\<open>evs\<close>, the text written to
  standard output so far, and \<open>zones\<close>, the number of calls of \<^verbatim>\<open>parseDay\<close> made so far,
  which is the next free address for a \<^verbatim>\<open>Location\<close>.
\<close>

record loop_state =
  prevDay :: Time
  evs :: "Event list"
  stdout :: string
  zones :: nat

text \<open>
  One iteration of the loop over \<^verbatim>\<open>events.Items\<close>. \<open>None\<close> is the panic on a nil
  \<^verbatim>\<open>Start\<close> or \<^verbatim>\<open>End\<close>; it happens before the iteration prints anything. The test
  \<^verbatim>\<open>day != prevDay\<close> compares the two \<^verbatim>\<open>Time\<close> structs, locations by address.
\<close>

definition main_step :: "stdlib \<Rightarrow> bool \<Rightarrow> loop_state \<Rightarrow> calendar_Event \<Rightarrow> loop_state option" where
  "main_step L summarize st item =
     (if ColorId item \<noteq> [] then Some st
      else let rspStatus = rspStatusFrom item in
      if rspStatus = ''declined'' then Some st
      else
        (case startDateFrom item of
           None \<Rightarrow> None
         | Some startRaw \<Rightarrow>
             let (day, startDate, evStart) =
                   (case map_option (newLocation (zones st)) (parseDay L startRaw) of
                      Some d \<Rightarrow> (truncDay L d, time_Format L d ''2006-01-02 15:04'', d)
                    | None \<Rightarrow> (zeroTime, startRaw, zeroTime))
             in
             (case endDateFrom item of
                None \<Rightarrow> None
              | Some endRaw \<Rightarrow>
                  let (endDate, evEnd) =
                        (case map_option (newLocation (zones st + 1)) (parseDay L endRaw) of
                           Some d \<Rightarrow> (time_Format L d ''15:04'', d)
                         | None \<Rightarrow> (endRaw, zeroTime));
                      ev = \<lparr>Start = evStart, End = evEnd\<rparr>;
                      st0 = st\<lparr>zones := zones st + 2\<rparr>
                  in
                  if summarize then Some (st0\<lparr>evs := evs st @ [ev]\<rparr>)
                  else
                    let st1 = (if day \<noteq> prevDay st
                               then st0\<lparr>prevDay := day, stdout := stdout st @ separator\<rparr>
                               else st0);
                        line = startDate @ ''-'' @ endDate @ '' '' @ pad40 L (Summary item)
                                 @ '' '' @ urlFrom item;
                        note = (if rspStatus \<noteq> [] \<and> rspStatus \<noteq> ''accepted''
                                then '' ['' @ rspStatus @ '': '' @ HtmlLink item @ '']''
                                else [])
                    in Some (st1\<lparr>stdout := stdout st1 @ line @ note @ newline\<rparr>))))"

fun main_loop :: "stdlib \<Rightarrow> bool \<Rightarrow> loop_state \<Rightarrow> calendar_Event list \<Rightarrow> string + loop_state" where
  "main_loop L summarize st [] = Inr st"
| "main_loop L summarize st (item # items) =
     (case main_step L summarize st item of
        None \<Rightarrow> Inl (stdout st)
      | Some st' \<Rightarrow> main_loop L summarize st' items)"

text \<open>
  The loop over the collapsed intervals in summary mode; it returns the text it prints.
  The intervals carry the locations that the calls of \<^verbatim>\<open>parseDay\<close> gave them, and
  \<^verbatim>\<open>day != prevDay\<close> compares them by address here too.
\<close>

fun summary_loop :: "stdlib \<Rightarrow> Time \<Rightarrow> Event list \<Rightarrow> string" where
  "summary_loop L prev [] = []"
| "summary_loop L prev (i # c) =
     (let day = truncDay L (Start i);
          startDate = time_Format L (Start i) ''2006-01-02 15:04'';
          endDate = time_Format L (End i) ''15:04''
      in (if day \<noteq> prev then separator else [])
         @ startDate @ ''-'' @ endDate @ newline
         @ summary_loop L (if day \<noteq> prev then day else prev) c)"

text \<open>
  The part of \<^verbatim>\<open>main\<close> from the test on \<^verbatim>\<open>events.Items\<close> on: what the program
  writes to standard output, and whether it ends normally or in a panic. The flag
  \<^verbatim>\<open>-s\<close>, the two readings of the clock and the items retrieved are its inputs.
\<close>

datatype outcome = Finished string | Panicked string

definition main_core :: "stdlib \<Rightarrow> bool \<Rightarrow> Time \<Rightarrow> Time \<Rightarrow> calendar_Event list \<Rightarrow> outcome" where
  "main_core L summarize now now2 items =
     (if length items = 0 then Finished (''No upcoming events found.'' @ newline)
      else
        (case main_loop L summarize
                \<lparr>prevDay = truncDay L now, evs = [], stdout = [], zones = 0\<rparr> items of
           Inl printed \<Rightarrow> Panicked printed
         | Inr st \<Rightarrow>
             if summarize
             then Finished (stdout st @ summary_loop L (truncDay L now2) (collapse (evs st)))
             else Finished (stdout st)))"

section \<open>A reference instance of the library\<close>

text \<open>
  A small instance of the library parameters, used to run the model on concrete events.
  It reads and writes the proleptic Gregorian calendar, takes the local zone to be at
  offset 0, parses the date-only layout and RFC 3339 timestamps with whole seconds, and
  formats the three layouts \<^verbatim>\<open>2006-01-02 15:04\<close>, \<^verbatim>\<open>15:04\<close> and \<^verbatim>\<open>2006-01-02\<close> for years
  0 to 9999.
\<close>

definition days_from_civil :: "int \<Rightarrow> int \<Rightarrow> int \<Rightarrow> int" where
  "days_from_civil y m d =
     (let y1 = (if m \<le> 2 then y - 1 else y);
          era = y1 div 400;
          yoe = y1 - era * 400;
          mp = (if m > 2 then m - 3 else m + 9);
          doy = (153 * mp + 2) div 5 + d - 1;
          doe = yoe * 365 + yoe div 4 - yoe div 100 + doy
      in era * 146097 + doe - 306)"

definition civil_from_days :: "int \<Rightarrow> int \<times> int \<times> int" where
  "civil_from_days z =
     (let z1 = z + 306;
          era = z1 div 146097;
          doe = z1 - era * 146097;
          yoe = (doe - doe div 1460 + doe div 36524 - doe div 146096) div 365;
          doy = doe - (365 * yoe + yoe div 4 - yoe div 100);
          mp = (5 * doy + 2) div 153;
          d = doy - (153 * mp + 2) div 5 + 1;
          m = (if mp < 10 then mp + 3 else mp - 9)
      in ((if m \<le> 2 then yoe + era * 400 + 1 else yoe + era * 400), m, d))"

definition zone_offset :: "time_Location \<Rightarrow> int" where
  "zone_offset l = (case l of UTC \<Rightarrow> 0 | Local \<Rightarrow> 0 | FixedZone a name off \<Rightarrow> off)"

definition wall_seconds :: "Time \<Rightarrow> int" where
  "wall_seconds t = instant t div 1000000000 + zone_offset (loc t)"

definition ref_Year :: "Time \<Rightarrow> int" where
  "ref_Year t = fst (civil_from_days (wall_seconds t div 86400))"

definition ref_Month :: "Time \<Rightarrow> int" where
  "ref_Month t = fst (snd (civil_from_days (wall_seconds t div 86400)))"

definition ref_Day :: "Time \<Rightarrow> int" where
  "ref_Day t = snd (snd (civil_from_days (wall_seconds t div 86400)))"

definition ref_Date :: "int \<Rightarrow> int \<Rightarrow> int \<Rightarrow> int \<Rightarrow> int \<Rightarrow> int \<Rightarrow> int \<Rightarrow> time_Location \<Rightarrow> Time" where
  "ref_Date y m d h mi s ns l =
     \<lparr>instant = (days_from_civil y m d * 86400 + h * 3600 + mi * 60 + s - zone_offset l)
                   * 1000000000 + ns,
      loc = l\<rparr>"

definition digit :: "int \<Rightarrow> char" where
  "digit k = char_of (48 + k)"

definition digits2 :: "int \<Rightarrow> string" where
  "digits2 n = [digit (n div 10 mod 10), digit (n mod 10)]"

definition digits4 :: "int \<Rightarrow> string" where
  "digits4 n = digits2 (n div 100) @ digits2 (n mod 100)"

definition ref_Format :: "Time \<Rightarrow> string \<Rightarrow> string" where
  "ref_Format t layout =
     (let date = digits4 (ref_Year t) @ ''-'' @ digits2 (ref_Month t) @ ''-'' @ digits2 (ref_Day t);
          sod = wall_seconds t mod 86400;
          hm = digits2 (sod div 3600) @ '':'' @ digits2 (sod mod 3600 div 60)
      in if layout = ''2006-01-02 15:04'' then date @ '' '' @ hm
         else if layout = ''15:04'' then hm
         else if layout = ''2006-01-02'' then date
         else layout)"

definition isDigit :: "char \<Rightarrow> bool" where
  "isDigit c = (48 \<le> (of_char c :: nat) \<and> (of_char c :: nat) \<le> 57)"

definition atoi :: "string \<Rightarrow> int option" where
  "atoi s = (if s \<noteq> [] \<and> list_all isDigit s
             then Some (foldl (\<lambda>n c. 10 * n + (of_char c - 48)) 0 s)
             else None)"

definition daysIn :: "int \<Rightarrow> int \<Rightarrow> int" where
  "daysIn m y =
     (if m = 2 then (if y mod 4 = 0 \<and> (y mod 100 \<noteq> 0 \<or> y mod 400 = 0) then 29 else 28)
      else if m \<in> set [4, 6, 9, 11] then 30 else 31)"

definition parse_civil :: "string \<Rightarrow> (int \<times> int \<times> int) option" where
  "parse_civil s =
     (if length s = 10 \<and> s ! 4 = CHR ''-'' \<and> s ! 7 = CHR ''-''
      then (case (atoi (take 4 s), atoi (take 2 (drop 5 s)), atoi (drop 8 s)) of
              (Some y, Some m, Some d) \<Rightarrow>
                if 1 \<le> m \<and> m \<le> 12 \<and> 1 \<le> d \<and> d \<le> daysIn m y then Some (y, m, d) else None
            | _ \<Rightarrow> None)
      else None)"

definition parse_clock :: "string \<Rightarrow> (int \<times> int \<times> int) option" where
  "parse_clock s =
     (if length s = 8 \<and> s ! 2 = CHR '':'' \<and> s ! 5 = CHR '':''
      then (case (atoi (take 2 s), atoi (take 2 (drop 3 s)), atoi (drop 6 s)) of
              (Some h, Some mi, Some sec) \<Rightarrow>
                if h < 24 \<and> mi < 60 \<and> sec < 60 then Some (h, mi, sec) else None
            | _ \<Rightarrow> None)
      else None)"

definition parse_zone :: "string \<Rightarrow> time_Location option" where
  "parse_zone s =
     (if s = ''Z'' then Some UTC
      else if length s = 6 \<and> (s ! 0 = CHR ''+'' \<or> s ! 0 = CHR ''-'') \<and> s ! 3 = CHR '':''
      then (case (atoi (take 2 (drop 1 s)), atoi (drop 4 s)) of
              (Some h, Some mi) \<Rightarrow>
                if h < 24 \<and> mi < 60
                then (let off = (if s ! 0 = CHR ''-'' then - 1 else 1) * (h * 60 + mi) * 60
                      in Some (if off = 0 then Local else FixedZone 0 [] off))
                else None
            | _ \<Rightarrow> None)
      else None)"

definition ref_Parse :: "string \<Rightarrow> string \<Rightarrow> Time option" where
  "ref_Parse layout v =
     (if layout = ''2006-01-02''
      then (case parse_civil v of
              Some (y, m, d) \<Rightarrow> Some (ref_Date y m d 0 0 0 0 UTC)
            | None \<Rightarrow> None)
      else if layout = RFC3339 \<and> 20 \<le> length v \<and> v ! 10 = CHR ''T''
      then (case (parse_civil (take 10 v), parse_clock (take 8 (drop 11 v)), parse_zone (drop 19 v)) of
              (Some (y, m, d), Some (h, mi, sec), Some l) \<Rightarrow> Some (ref_Date y m d h mi sec 0 l)
            | _ \<Rightarrow> None)
      else None)"

definition ref_RuneCount :: "string \<Rightarrow> nat" where
  "ref_RuneCount s = length (filter (\<lambda>c. \<not> (128 \<le> (of_char c :: nat) \<and> (of_char c :: nat) < 192)) s)"

definition ref_lib :: stdlib where
  "ref_lib = \<lparr>time_Parse = ref_Parse, time_Format = ref_Format, time_Year = ref_Year,
              time_Month = ref_Month, time_Day = ref_Day, time_Date = ref_Date,
              RuneCountInString = ref_RuneCount\<rparr>"

definition raw_event :: "string \<Rightarrow> string \<Rightarrow> string \<Rightarrow> string \<Rightarrow> string \<Rightarrow> string \<Rightarrow> calendar_Event" where
  "raw_event color summary location status start end =
     \<lparr>ColorId = color, Summary = summary, Location = location,
      HtmlLink = ''https://cal.example/e1'',
      Attendees = (if status = [] then [] else [\<lparr>Self = True, ResponseStatus = status\<rparr>]),
      ConferenceData = None,
      Start = Some \<lparr>Date = (if length start = 10 then start else []),
                    DateTime = (if length start = 10 then [] else start)\<rparr>,
      End = Some \<lparr>Date = (if length end = 10 then end else []),
                  DateTime = (if length end = 10 then [] else end)\<rparr>\<rparr>"

section \<open>URL tokens in a text\<close>

text \<open>
  At position \<open>k\<close> of \<open>s\<close> stands \<^verbatim>\<open>http://\<close> or \<^verbatim>\<open>https://\<close>, followed by at least one
  character that is not white space: a URL token starts there.
\<close>

definition url_token_at :: "string \<Rightarrow> nat \<Rightarrow> bool" where
  "url_token_at s k =
     (let t = drop k s
      in (take 7 t = ''http://'' \<and> 7 < length t \<and> \<not> isSpace (t ! 7)) \<or>
         (take 8 t = ''https://'' \<and> 8 < length t \<and> \<not> isSpace (t ! 8)))"

section \<open>The spec's wording of two output formats\<close>

text \<open>
  Following the spec's words for the detail line, ``summary left-padded to 40 columns'':
  the padding is put to the left of the text.
\<close>

definition spec_left_padded40 :: "stdlib \<Rightarrow> string \<Rightarrow> string" where
  "spec_left_padded40 L s = replicate (40 - RuneCountInString L s) CHR '' '' @ s"

text \<open>
  Following the spec's words for the rendering of a start or an end: date-only when the raw
  value carried no time component, time-of-day when it did.
\<close>

definition spec_rendered :: "stdlib \<Rightarrow> bool \<Rightarrow> Time \<Rightarrow> string" where
  "spec_rendered L has_time t =
     (if has_time then time_Format L t ''15:04'' else time_Format L t ''2006-01-02'')"

section \<open>Properties of the collapser\<close>

lemma event_eta [simp]: "\<lparr>Start = Start i, End = End i\<rparr> = (i :: Event)"
  by simp

lemma collapse_loop_out: "collapse_loop ev out xs = out @ collapse_loop ev [] xs"
proof (induction xs arbitrary: ev out)
  case Nil
  show ?case by simp
next
  case (Cons i rest)
  have a: "collapse_loop i (out @ [ev]) rest = out @ ev # collapse_loop i [] rest"
    using Cons.IH [of i "out @ [ev]"] Cons.IH [of i "[ev]"] by simp
  have b: "collapse_loop i [ev] rest = ev # collapse_loop i [] rest"
    using Cons.IH [of i "[ev]"] by simp
  have c: "collapse_loop (ev\<lparr>End := End i\<rparr>) out rest = out @ collapse_loop (ev\<lparr>End := End i\<rparr>) [] rest"
    using Cons.IH [of "ev\<lparr>End := End i\<rparr>" out] by simp
  have d: "collapse_loop ev out rest = out @ collapse_loop ev [] rest"
    using Cons.IH [of ev out] by simp
  show ?case using a b c d by simp
qed

lemma collapse_loop_close:
  "After (Start i) (End ev) \<Longrightarrow>
   collapse_loop ev [] (i # rest) = ev # collapse_loop i [] rest"
  using collapse_loop_out [of i "[ev]" rest] by simp

lemma collapse_loop_extend:
  "\<not> After (Start i) (End ev) \<Longrightarrow> After (End i) (End ev) \<Longrightarrow>
   collapse_loop ev [] (i # rest) = collapse_loop (ev\<lparr>End := End i\<rparr>) [] rest"
  by simp

lemma collapse_loop_drop:
  "\<not> After (Start i) (End ev) \<Longrightarrow> \<not> After (End i) (End ev) \<Longrightarrow>
   collapse_loop ev [] (i # rest) = collapse_loop ev [] rest"
  by simp

lemma collapse_loop_hd:
  "\<exists>e ys. collapse_loop ev [] xs = e # ys \<and> Start e = Start ev"
proof (induction xs arbitrary: ev)
  case Nil
  show ?case by simp
next
  case (Cons i rest)
  consider (close) "After (Start i) (End ev)"
    | (extend) "\<not> After (Start i) (End ev)" "After (End i) (End ev)"
    | (drop) "\<not> After (Start i) (End ev)" "\<not> After (End i) (End ev)"
    by blast
  then show ?case
  proof cases
    case close
    then show ?thesis by (simp add: collapse_loop_close del: collapse_loop.simps)
  next
    case extend
    then show ?thesis
      using Cons.IH [of "ev\<lparr>End := End i\<rparr>"] by simp
  next
    case drop
    then show ?thesis using Cons.IH [of ev] by simp
  qed
qed

lemma separated_collapse_loop: "separated (collapse_loop ev [] xs)"
proof (induction xs arbitrary: ev)
  case Nil
  show ?case by simp
next
  case (Cons i rest)
  consider (close) "After (Start i) (End ev)"
    | (extend) "\<not> After (Start i) (End ev)" "After (End i) (End ev)"
    | (drop) "\<not> After (Start i) (End ev)" "\<not> After (End i) (End ev)"
    by blast
  then show ?case
  proof cases
    case close
    obtain e ys where h: "collapse_loop i [] rest = e # ys" "Start e = Start i"
      using collapse_loop_hd [of i rest] by blast
    have "separated (e # ys)" using Cons.IH [of i] h by simp
    then show ?thesis using close h
      by (simp add: collapse_loop_close del: collapse_loop.simps)
  next
    case extend
    then show ?thesis using Cons.IH [of "ev\<lparr>End := End i\<rparr>"] by simp
  next
    case drop
    then show ?thesis using Cons.IH [of ev] by simp
  qed
qed

lemma collapse_fixed: "separated xs \<Longrightarrow> xs \<noteq> [] \<Longrightarrow> collapse_loop (hd xs) [] (tl xs) = xs"
proof (induction xs rule: separated.induct)
  case 1
  then show ?case by simp
next
  case (2 a)
  show ?case by simp
next
  case (3 a b rest)
  then show ?case by (simp add: collapse_loop_close del: collapse_loop.simps)
qed

lemma collapse_separated_id: "separated xs \<Longrightarrow> collapse xs = xs"
  using collapse_fixed [of xs] by (cases xs) simp_all

lemma separated_collapse: "separated (collapse xs)"
  by (cases xs) (simp_all add: separated_collapse_loop)

lemma ascending_collapse_loop:
  "ascending (ev # xs) \<Longrightarrow> ascending (collapse_loop ev [] xs) \<and>
     (\<forall>e \<in> set (collapse_loop ev [] xs). instant (Start ev) \<le> instant (Start e))"
proof (induction xs arbitrary: ev)
  case Nil
  show ?case by (simp add: ascending_def)
next
  case (Cons i rest)
  have asc_i: "ascending (i # rest)" and le: "instant (Start ev) \<le> instant (Start i)"
    and asc_ev: "ascending (ev # rest)"
    using Cons.prems by (auto simp: ascending_def)
  consider (close) "After (Start i) (End ev)"
    | (extend) "\<not> After (Start i) (End ev)" "After (End i) (End ev)"
    | (drop) "\<not> After (Start i) (End ev)" "\<not> After (End i) (End ev)"
    by blast
  then show ?case
  proof cases
    case close
    have ih: "ascending (collapse_loop i [] rest)"
      "\<forall>e \<in> set (collapse_loop i [] rest). instant (Start i) \<le> instant (Start e)"
      using Cons.IH [OF asc_i] by simp_all
    have "ascending (ev # collapse_loop i [] rest)"
      using ih le by (auto simp: ascending_def)
    moreover have "\<forall>e \<in> set (ev # collapse_loop i [] rest). instant (Start ev) \<le> instant (Start e)"
      using ih le by auto
    ultimately show ?thesis using close
      by (simp add: collapse_loop_close del: collapse_loop.simps)
  next
    case extend
    have "ascending (ev\<lparr>End := End i\<rparr> # rest)"
      using asc_ev by (simp add: ascending_def)
    from Cons.IH [OF this] show ?thesis using extend by simp
  next
    case drop
    from Cons.IH [OF asc_ev] show ?thesis using drop by simp
  qed
qed

lemma covers_collapse_loop:
  "ascending (ev # xs) \<Longrightarrow> covers (collapse_loop ev [] xs) t = covers (ev # xs) t"
proof (induction xs arbitrary: ev)
  case Nil
  show ?case by simp
next
  case (Cons i rest)
  have asc_i: "ascending (i # rest)" and le: "instant (Start ev) \<le> instant (Start i)"
    and asc_ev: "ascending (ev # rest)"
    using Cons.prems by (auto simp: ascending_def)
  consider (close) "After (Start i) (End ev)"
    | (extend) "\<not> After (Start i) (End ev)" "After (End i) (End ev)"
    | (drop) "\<not> After (Start i) (End ev)" "\<not> After (End i) (End ev)"
    by blast
  then show ?case
  proof cases
    case close
    then show ?thesis using Cons.IH [OF asc_i]
      by (simp add: collapse_loop_close covers_def del: collapse_loop.simps)
  next
    case extend
    have "ascending (ev\<lparr>End := End i\<rparr> # rest)"
      using asc_ev by (simp add: ascending_def)
    from Cons.IH [OF this] show ?thesis using extend le
      by (auto simp: covers_def After_def)
  next
    case drop
    from Cons.IH [OF asc_ev] show ?thesis using drop le
      by (auto simp: covers_def After_def)
  qed
qed

lemma covers_open_collapse_loop:
  "ascending (ev # xs) \<Longrightarrow> covers_open (collapse_loop ev [] xs) t = covers_open (ev # xs) t"
proof (induction xs arbitrary: ev)
  case Nil
  show ?case by simp
next
  case (Cons i rest)
  have asc_i: "ascending (i # rest)" and le: "instant (Start ev) \<le> instant (Start i)"
    and asc_ev: "ascending (ev # rest)"
    using Cons.prems by (auto simp: ascending_def)
  consider (close) "After (Start i) (End ev)"
    | (extend) "\<not> After (Start i) (End ev)" "After (End i) (End ev)"
    | (drop) "\<not> After (Start i) (End ev)" "\<not> After (End i) (End ev)"
    by blast
  then show ?case
  proof cases
    case close
    then show ?thesis using Cons.IH [OF asc_i]
      by (simp add: collapse_loop_close covers_open_def del: collapse_loop.simps)
  next
    case extend
    have "ascending (ev\<lparr>End := End i\<rparr> # rest)"
      using asc_ev by (simp add: ascending_def)
    from Cons.IH [OF this] show ?thesis using extend le
      by (auto simp: covers_open_def After_def)
  next
    case drop
    from Cons.IH [OF asc_ev] show ?thesis using drop le
      by (auto simp: covers_open_def After_def)
  qed
qed

lemma points_collapse_loop:
  "Start ` set (collapse_loop ev [] xs) \<subseteq> Start ` set (ev # xs) \<and>
   End ` set (collapse_loop ev [] xs) \<subseteq> End ` set (ev # xs)"
proof (induction xs arbitrary: ev)
  case Nil
  show ?case by simp
next
  case (Cons i rest)
  consider (close) "After (Start i) (End ev)"
    | (extend) "\<not> After (Start i) (End ev)" "After (End i) (End ev)"
    | (drop) "\<not> After (Start i) (End ev)" "\<not> After (End i) (End ev)"
    by blast
  then show ?case
  proof cases
    case close
    then show ?thesis using Cons.IH [of i]
      by (auto simp add: collapse_loop_close simp del: collapse_loop.simps)
  next
    case extend
    then show ?thesis using Cons.IH [of "ev\<lparr>End := End i\<rparr>"] by auto
  next
    case drop
    then show ?thesis using Cons.IH [of ev] by auto
  qed
qed

subsection \<open>Claims about the collapser\<close>

text \<open>
  C1. For every input sorted ascending by start, the output of \<^verbatim>\<open>collapse\<close> is sorted
  ascending by start, covers exactly the same time points as the input (whether an interval
  is read as closed, \<open>start \<le> t \<le> end\<close>, or as half-open, \<open>start \<le> t < end\<close>), and any
  two consecutive output intervals are apart: the later one starts strictly after the
  earlier one ends.
\<close>

theorem collapse_ascending_cover_minimal:
  assumes "ascending xs"
  shows "ascending (collapse xs) \<and>
         (\<forall>t. covers (collapse xs) t = covers xs t) \<and>
         (\<forall>t. covers_open (collapse xs) t = covers_open xs t) \<and>
         separated (collapse xs)"
proof (cases xs)
  case Nil
  then show ?thesis by (simp add: ascending_def)
next
  case (Cons x rest)
  have asc: "ascending (x # rest)" using assms Cons by simp
  have "ascending (collapse_loop x [] rest)"
    using ascending_collapse_loop [OF asc] by simp
  moreover have "\<forall>t. covers (collapse_loop x [] rest) t = covers (x # rest) t"
    using covers_collapse_loop [OF asc] by simp
  moreover have "\<forall>t. covers_open (collapse_loop x [] rest) t = covers_open (x # rest) t"
    using covers_open_collapse_loop [OF asc] by simp
  moreover have "separated (collapse_loop x [] rest)"
    by (rule separated_collapse_loop)
  ultimately show ?thesis using Cons by simp
qed

theorem collapse_ascending_cover_minimal_witness:
  "ascending [mk 10 30, mk 15 60, mk 60 70, mk 120 150] \<and>
   collapse [mk 10 30, mk 15 60, mk 60 70, mk 120 150] = [mk 10 70, mk 120 150] \<and>
   ascending (collapse [mk 10 30, mk 15 60, mk 60 70, mk 120 150]) \<and>
   separated (collapse [mk 10 30, mk 15 60, mk 60 70, mk 120 150]) \<and>
   (\<forall>t. covers (collapse [mk 10 30, mk 15 60, mk 60 70, mk 120 150]) t =
        covers [mk 10 30, mk 15 60, mk 60 70, mk 120 150] t)"
proof -
  have h: "ascending [mk 10 30, mk 15 60, mk 60 70, mk 120 150]"
    by (simp add: ascending_def mk_def)
  have v: "collapse [mk 10 30, mk 15 60, mk 60 70, mk 120 150] = [mk 10 70, mk 120 150]"
    by (simp add: mk_def After_def)
  show ?thesis using h v collapse_ascending_cover_minimal [OF h] by simp
qed

text \<open>
  C3. In the loop of \<^verbatim>\<open>collapse\<close>, an interval whose start is at or before the end of the
  open interval is merged into it and nothing is appended to the output; in particular an
  interval that starts exactly where the open interval ends is merged. Only a start strictly
  after the open interval's end closes it and opens a new interval.
\<close>

theorem collapse_touching_merged:
  "(instant (Start i) \<le> instant (End ev) \<longrightarrow>
      collapse_loop ev out (i # rest) =
      collapse_loop (if After (End i) (End ev) then ev\<lparr>End := End i\<rparr> else ev) out rest) \<and>
   (instant (Start i) = instant (End ev) \<longrightarrow>
      collapse [ev, i] = [if After (End i) (End ev) then ev\<lparr>End := End i\<rparr> else ev]) \<and>
   (instant (End ev) < instant (Start i) \<longrightarrow>
      collapse_loop ev out (i # rest) = collapse_loop i (out @ [ev]) rest)"
  by (simp add: After_def)

theorem collapse_touching_merged_witness:
  "instant (Start (mk 30 50)) = instant (End (mk 10 30)) \<and>
   collapse [mk 10 30, mk 30 50] = [mk 10 50] \<and>
   instant (End (mk 10 30)) < instant (Start (mk 31 50)) \<and>
   collapse_loop (mk 10 30) [] [mk 31 50] = [mk 10 30, mk 31 50]"
  using collapse_touching_merged [of "mk 30 50" "mk 10 30" "[]" "[]"]
    collapse_touching_merged [of "mk 31 50" "mk 10 30" "[]" "[]"]
  by (simp add: mk_def After_def)

text \<open>
  C4. \<^verbatim>\<open>collapse\<close> is idempotent: collapsing its own output changes nothing. This holds
  for every input, sorted or not, since the output is always separated.
\<close>

theorem collapse_idempotent: "collapse (collapse xs) = collapse xs"
  by (rule collapse_separated_id) (rule separated_collapse)

text \<open>
  C10. For a non-empty input, \<^verbatim>\<open>collapse\<close> returns a non-empty output whose first interval
  starts at the first input interval's start; every start of the output is the start of some
  input interval and every end of the output is the end of some input interval.
\<close>

theorem collapse_points_from_input:
  assumes "xs \<noteq> []"
  shows "collapse xs \<noteq> [] \<and>
         Start (hd (collapse xs)) = Start (hd xs) \<and>
         Start ` set (collapse xs) \<subseteq> Start ` set xs \<and>
         End ` set (collapse xs) \<subseteq> End ` set xs"
proof -
  obtain x rest where xs: "xs = x # rest" using assms by (cases xs) auto
  obtain e ys where h: "collapse_loop x [] rest = e # ys" "Start e = Start x"
    using collapse_loop_hd [of x rest] by blast
  have p: "Start ` set (collapse_loop x [] rest) \<subseteq> Start ` set (x # rest)"
    "End ` set (collapse_loop x [] rest) \<subseteq> End ` set (x # rest)"
    using points_collapse_loop [of x rest] by blast+
  show ?thesis using xs h p by simp
qed

theorem collapse_points_from_input_witness:
  "[mk 9 12, mk 10 11, mk 12 13] \<noteq> [] \<and>
   collapse [mk 9 12, mk 10 11, mk 12 13] = [mk 9 13] \<and>
   Start (hd (collapse [mk 9 12, mk 10 11, mk 12 13])) = Start (hd [mk 9 12, mk 10 11, mk 12 13]) \<and>
   End ` set (collapse [mk 9 12, mk 10 11, mk 12 13]) \<subseteq> End ` set [mk 9 12, mk 10 11, mk 12 13]"
proof -
  have h: "[mk 9 12, mk 10 11, mk 12 13] \<noteq> []" by simp
  have v: "collapse [mk 9 12, mk 10 11, mk 12 13] = [mk 9 13]"
    by (simp add: mk_def After_def)
  show ?thesis using h v collapse_points_from_input [OF h] by simp
qed

section \<open>Properties of the main loop\<close>

lemma main_step_skipped:
  "ColorId item \<noteq> [] \<or> rspStatusFrom item = ''declined'' \<Longrightarrow> main_step L summarize st item = Some st"
  by (auto simp: main_step_def Let_def)

lemma main_step_nil:
  assumes "ColorId item = []" "rspStatusFrom item \<noteq> ''declined''"
    and "startDateFrom item = None \<or> endDateFrom item = None"
  shows "main_step L summarize st item = None"
  using assms by (auto simp: main_step_def Let_def split: option.splits prod.splits)

lemma main_step_summarize:
  assumes "ColorId item = []" "rspStatusFrom item \<noteq> ''declined''"
    and "startDateFrom item = Some startRaw" "endDateFrom item = Some endRaw"
  shows "main_step L True st item =
         Some (st\<lparr>evs := evs st @
            [\<lparr>Start = (case parseDay L startRaw of
                         Some d \<Rightarrow> newLocation (zones st) d | None \<Rightarrow> zeroTime),
              End = (case parseDay L endRaw of
                       Some d \<Rightarrow> newLocation (zones st + 1) d | None \<Rightarrow> zeroTime)\<rparr>],
            zones := zones st + 2\<rparr>)"
  using assms by (simp add: main_step_def Let_def split: option.splits)

lemma main_step_detail:
  assumes "ColorId item = []" "rspStatusFrom item \<noteq> ''declined''"
    and "startDateFrom item = Some startRaw" "endDateFrom item = Some endRaw"
  shows "main_step L False st item =
         Some (st\<lparr>prevDay := (case parseDay L startRaw of
                                 Some d \<Rightarrow> truncDay L (newLocation (zones st) d)
                               | None \<Rightarrow> zeroTime),
                  stdout := stdout st
                    @ (if (case parseDay L startRaw of
                             Some d \<Rightarrow> truncDay L (newLocation (zones st) d)
                           | None \<Rightarrow> zeroTime) \<noteq> prevDay st
                       then separator else [])
                    @ (case parseDay L startRaw of
                         Some d \<Rightarrow> time_Format L (newLocation (zones st) d) ''2006-01-02 15:04''
                       | None \<Rightarrow> startRaw)
                    @ ''-''
                    @ (case parseDay L endRaw of
                         Some d \<Rightarrow> time_Format L (newLocation (zones st + 1) d) ''15:04''
                       | None \<Rightarrow> endRaw)
                    @ '' '' @ pad40 L (Summary item) @ '' '' @ urlFrom item
                    @ (if rspStatusFrom item \<noteq> [] \<and> rspStatusFrom item \<noteq> ''accepted''
                       then '' ['' @ rspStatusFrom item @ '': '' @ HtmlLink item @ '']''
                       else [])
                    @ newline,
                  zones := zones st + 2\<rparr>)"
  using assms by (simp add: main_step_def Let_def split: option.splits)

lemma main_step_changes:
  assumes "ColorId item = []" "rspStatusFrom item \<noteq> ''declined''"
  shows "main_step L summarize st item \<noteq> Some st"
proof (cases "startDateFrom item = None \<or> endDateFrom item = None")
  case True
  then show ?thesis using main_step_nil [OF assms True, of L summarize st] by simp
next
  case False
  then obtain startRaw endRaw where
    raw: "startDateFrom item = Some startRaw" "endDateFrom item = Some endRaw" by auto
  have z: "\<And>st'. main_step L summarize st item = Some st' \<Longrightarrow> zones st' = zones st + 2"
  proof (cases summarize)
    case True
    fix st' assume "main_step L summarize st item = Some st'"
    then show "zones st' = zones st + 2"
      using True main_step_summarize [OF assms raw, of L st] by auto
  next
    case False
    fix st' assume "main_step L summarize st item = Some st'"
    then show "zones st' = zones st + 2"
      using False main_step_detail [OF assms raw, of L st] by auto
  qed
  show ?thesis
  proof
    assume "main_step L summarize st item = Some st"
    from z [OF this] show False by simp
  qed
qed

lemma main_step_cong:
  assumes "ColorId a = ColorId b" and "rspStatusFrom a = rspStatusFrom b"
    and "startDateFrom a = startDateFrom b" and "endDateFrom a = endDateFrom b"
    and "Summary a = Summary b" and "urlFrom a = urlFrom b" and "HtmlLink a = HtmlLink b"
  shows "main_step L summarize st a = main_step L summarize st b"
  unfolding main_step_def assms by (rule refl)

lemma main_loop_filter:
  "main_loop L summarize st items =
   main_loop L summarize st
     (filter (\<lambda>item. \<not> (ColorId item \<noteq> [] \<or> rspStatusFrom item = ''declined'')) items)"
proof (induction items arbitrary: st)
  case Nil
  show ?case by simp
next
  case (Cons item items)
  show ?case
  proof (cases "ColorId item \<noteq> [] \<or> rspStatusFrom item = ''declined''")
    case True
    then show ?thesis using Cons.IH [of st] main_step_skipped [OF True, of L summarize st]
      by simp
  next
    case False
    then show ?thesis using Cons.IH by (simp split: option.splits)
  qed
qed

lemma main_loop_all_skipped:
  "\<forall>item \<in> set items. ColorId item \<noteq> [] \<or> rspStatusFrom item = ''declined'' \<Longrightarrow>
   main_loop L summarize st items = Inr st"
proof -
  assume "\<forall>item \<in> set items. ColorId item \<noteq> [] \<or> rspStatusFrom item = ''declined''"
  then have "filter (\<lambda>item. \<not> (ColorId item \<noteq> [] \<or> rspStatusFrom item = ''declined'')) items = []"
    by (simp add: filter_empty_conv)
  then show ?thesis using main_loop_filter [of L summarize st items] by simp
qed

text \<open>
  C7. \<^verbatim>\<open>parseDay\<close> tries the date-only layout first and the RFC 3339 layout second and
  returns the first result that parses; when neither parses it returns nil (\<open>None\<close>) rather
  than failing, and the caller then leaves the corresponding instant of the event at the
  zero time.
\<close>

theorem parseDay_order:
  "(\<forall>t. time_Parse L ''2006-01-02'' d = Some t \<longrightarrow> parseDay L d = Some t) \<and>
   (time_Parse L ''2006-01-02'' d = None \<longrightarrow> parseDay L d = time_Parse L RFC3339 d) \<and>
   (time_Parse L ''2006-01-02'' d = None \<and> time_Parse L RFC3339 d = None \<longrightarrow>
      parseDay L d = None) \<and>
   (ColorId item = [] \<and> rspStatusFrom item \<noteq> ''declined'' \<and>
    startDateFrom item = Some startRaw \<and> endDateFrom item = Some endRaw \<longrightarrow>
      (\<exists>e. main_step L True st item = Some (st\<lparr>evs := evs st @ [e], zones := zones st + 2\<rparr>) \<and>
           (parseDay L startRaw = None \<longrightarrow> Start e = zeroTime) \<and>
           (parseDay L endRaw = None \<longrightarrow> End e = zeroTime) \<and>
           (\<forall>t. parseDay L startRaw = Some t \<longrightarrow> Start e = newLocation (zones st) t) \<and>
           (\<forall>t. parseDay L endRaw = Some t \<longrightarrow> End e = newLocation (zones st + 1) t)))"
proof -
  have a: "\<forall>t. time_Parse L ''2006-01-02'' d = Some t \<longrightarrow> parseDay L d = Some t"
    by (simp add: parseDay_def)
  have b: "time_Parse L ''2006-01-02'' d = None \<longrightarrow> parseDay L d = time_Parse L RFC3339 d"
    by (simp add: parseDay_def split: option.splits)
  have c: "time_Parse L ''2006-01-02'' d = None \<and> time_Parse L RFC3339 d = None \<longrightarrow>
      parseDay L d = None"
    by (simp add: parseDay_def)
  have e: "ColorId item = [] \<and> rspStatusFrom item \<noteq> ''declined'' \<and>
    startDateFrom item = Some startRaw \<and> endDateFrom item = Some endRaw \<longrightarrow>
      (\<exists>e. main_step L True st item = Some (st\<lparr>evs := evs st @ [e], zones := zones st + 2\<rparr>) \<and>
           (parseDay L startRaw = None \<longrightarrow> Start e = zeroTime) \<and>
           (parseDay L endRaw = None \<longrightarrow> End e = zeroTime) \<and>
           (\<forall>t. parseDay L startRaw = Some t \<longrightarrow> Start e = newLocation (zones st) t) \<and>
           (\<forall>t. parseDay L endRaw = Some t \<longrightarrow> End e = newLocation (zones st + 1) t))"
  proof
    assume h: "ColorId item = [] \<and> rspStatusFrom item \<noteq> ''declined'' \<and>
      startDateFrom item = Some startRaw \<and> endDateFrom item = Some endRaw"
    have "main_step L True st item =
         Some (st\<lparr>evs := evs st @
            [\<lparr>Start = (case parseDay L startRaw of
                         Some d \<Rightarrow> newLocation (zones st) d | None \<Rightarrow> zeroTime),
              End = (case parseDay L endRaw of
                       Some d \<Rightarrow> newLocation (zones st + 1) d | None \<Rightarrow> zeroTime)\<rparr>],
            zones := zones st + 2\<rparr>)"
      using h by (intro main_step_summarize) simp_all
    then show "\<exists>e. main_step L True st item = Some (st\<lparr>evs := evs st @ [e], zones := zones st + 2\<rparr>) \<and>
           (parseDay L startRaw = None \<longrightarrow> Start e = zeroTime) \<and>
           (parseDay L endRaw = None \<longrightarrow> End e = zeroTime) \<and>
           (\<forall>t. parseDay L startRaw = Some t \<longrightarrow> Start e = newLocation (zones st) t) \<and>
           (\<forall>t. parseDay L endRaw = Some t \<longrightarrow> End e = newLocation (zones st + 1) t)"
      by (intro exI [of _ "\<lparr>Start = (case parseDay L startRaw of
                         Some d \<Rightarrow> newLocation (zones st) d | None \<Rightarrow> zeroTime),
              End = (case parseDay L endRaw of
                       Some d \<Rightarrow> newLocation (zones st + 1) d | None \<Rightarrow> zeroTime)\<rparr>"]) simp
  qed
  show ?thesis using a b c e by blast
qed

theorem parseDay_order_witness:
  "time_Parse ref_lib ''2006-01-02'' ''2021-03-01'' = Some (ref_Date 2021 3 1 0 0 0 0 UTC) \<and>
   parseDay ref_lib ''2021-03-01'' = Some (ref_Date 2021 3 1 0 0 0 0 UTC) \<and>
   time_Parse ref_lib ''2006-01-02'' ''2021-03-01T10:30:00Z'' = None \<and>
   parseDay ref_lib ''2021-03-01T10:30:00Z'' = Some (ref_Date 2021 3 1 10 30 0 0 UTC) \<and>
   time_Parse ref_lib ''2006-01-02'' ''tomorrow'' = None \<and>
   time_Parse ref_lib RFC3339 ''tomorrow'' = None \<and>
   parseDay ref_lib ''tomorrow'' = None \<and>
   main_step ref_lib True \<lparr>prevDay = zeroTime, evs = [], stdout = [], zones = 0\<rparr>
     (raw_event [] ''Lunch'' [] [] ''tomorrow'' ''2021-03-01T10:30:00Z'') =
   Some \<lparr>prevDay = zeroTime,
         evs = [\<lparr>Start = zeroTime, End = ref_Date 2021 3 1 10 30 0 0 UTC\<rparr>], stdout = [],
         zones = 2\<rparr>"
proof -
  have p1: "time_Parse ref_lib ''2006-01-02'' ''2021-03-01'' = Some (ref_Date 2021 3 1 0 0 0 0 UTC)"
    by code_simp
  have p2: "time_Parse ref_lib ''2006-01-02'' ''2021-03-01T10:30:00Z'' = None"
    by code_simp
  have p3: "time_Parse ref_lib RFC3339 ''2021-03-01T10:30:00Z'' = Some (ref_Date 2021 3 1 10 30 0 0 UTC)"
    by code_simp
  have p4: "time_Parse ref_lib ''2006-01-02'' ''tomorrow'' = None"
    by code_simp
  have p5: "time_Parse ref_lib RFC3339 ''tomorrow'' = None"
    by code_simp
  have n: "newLocation 1 (ref_Date 2021 3 1 10 30 0 0 UTC) = ref_Date 2021 3 1 10 30 0 0 UTC"
    by code_simp
  have i: "ColorId (raw_event [] ''Lunch'' [] [] ''tomorrow'' ''2021-03-01T10:30:00Z'') = [] \<and>
     rspStatusFrom (raw_event [] ''Lunch'' [] [] ''tomorrow'' ''2021-03-01T10:30:00Z'') \<noteq> ''declined'' \<and>
     startDateFrom (raw_event [] ''Lunch'' [] [] ''tomorrow'' ''2021-03-01T10:30:00Z'') = Some ''tomorrow'' \<and>
     endDateFrom (raw_event [] ''Lunch'' [] [] ''tomorrow'' ''2021-03-01T10:30:00Z'') = Some ''2021-03-01T10:30:00Z''"
    by code_simp
  have s: "main_step ref_lib True \<lparr>prevDay = zeroTime, evs = [], stdout = [], zones = 0\<rparr>
     (raw_event [] ''Lunch'' [] [] ''tomorrow'' ''2021-03-01T10:30:00Z'') =
   Some \<lparr>prevDay = zeroTime,
         evs = [\<lparr>Start = zeroTime, End = ref_Date 2021 3 1 10 30 0 0 UTC\<rparr>], stdout = [],
         zones = 2\<rparr>"
    using p2 p3 p4 p5 i n
      parseDay_order [of ref_lib "''tomorrow''"
        "raw_event [] ''Lunch'' [] [] ''tomorrow'' ''2021-03-01T10:30:00Z''"
        "''tomorrow''" "''2021-03-01T10:30:00Z''"
        "\<lparr>prevDay = zeroTime, evs = [], stdout = [], zones = 0\<rparr>"]
      parseDay_order [of ref_lib "''2021-03-01T10:30:00Z''"]
    by auto
  show ?thesis
    using p1 p2 p3 p4 p5 s parseDay_order [of ref_lib "''2021-03-01''"]
      parseDay_order [of ref_lib "''2021-03-01T10:30:00Z''"]
      parseDay_order [of ref_lib "''tomorrow''"]
    by simp
qed


lemma main_loop_collects:
  "main_loop L True st items = Inr st' \<Longrightarrow>
   length (evs st') = length (evs st) +
     length (filter (\<lambda>item. \<not> (ColorId item \<noteq> [] \<or> rspStatusFrom item = ''declined'')) items) \<and>
   stdout st' = stdout st \<and> prevDay st' = prevDay st"
proof (induction items arbitrary: st)
  case Nil
  then show ?case by simp
next
  case (Cons item items)
  show ?case
  proof (cases "ColorId item \<noteq> [] \<or> rspStatusFrom item = ''declined''")
    case True
    have "main_step L True st item = Some st" by (rule main_step_skipped [OF True])
    then have "main_loop L True st items = Inr st'" using Cons.prems by simp
    from Cons.IH [OF this] show ?thesis using True by simp
  next
    case False
    then have k: "ColorId item = []" "rspStatusFrom item \<noteq> ''declined''" by simp_all
    obtain st1 where s1: "main_step L True st item = Some st1"
      and l1: "main_loop L True st1 items = Inr st'"
      using Cons.prems by (auto split: option.splits)
    have "\<not> (startDateFrom item = None \<or> endDateFrom item = None)"
    proof
      assume x: "startDateFrom item = None \<or> endDateFrom item = None"
      show False using main_step_nil [OF k x, of L True st] s1 by simp
    qed
    then obtain startRaw endRaw where
      raw: "startDateFrom item = Some startRaw" "endDateFrom item = Some endRaw" by auto
    have "length (evs st1) = length (evs st) + 1 \<and> stdout st1 = stdout st \<and> prevDay st1 = prevDay st"
      using main_step_summarize [OF k raw, of L st] s1 by auto
    then show ?thesis using Cons.IH [OF l1] False by simp
  qed
qed

text \<open>
  C5. An iteration of the loop leaves everything as it was (the output, the intervals
  collected for the collapser, the day tracker) exactly when the event's colour tag is
  non-empty or its resolved response status is \<^verbatim>\<open>declined\<close>. Every other event goes
  through with its own data: in summary mode exactly its interval is appended to the
  intervals for the collapser, in detail mode exactly its line is printed (when the event
  lacks a start or an end the program panics instead). So the loop runs as on the list
  without the skipped events, in summary mode it collects one interval for each event
  that is not skipped, and what the program prints is computed from the events that are not
  skipped alone: their lines in detail mode, the collapse of their intervals in summary mode.
\<close>

theorem skipped_iff_colored_or_declined:
  "(ColorId item \<noteq> [] \<or> rspStatusFrom item = ''declined'' \<longrightarrow>
      main_step L summarize st item = Some st) \<and>
   ((main_step L summarize st item = Some st) =
      (ColorId item \<noteq> [] \<or> rspStatusFrom item = ''declined'')) \<and>
   (\<not> (ColorId item \<noteq> [] \<or> rspStatusFrom item = ''declined'') \<longrightarrow>
      main_step L True st item =
        (case startDateFrom item of
           None \<Rightarrow> None
         | Some startRaw \<Rightarrow>
             (case endDateFrom item of
                None \<Rightarrow> None
              | Some endRaw \<Rightarrow>
                  Some (st\<lparr>evs := evs st @
                     [\<lparr>Start = (case parseDay L startRaw of
                                  Some d \<Rightarrow> newLocation (zones st) d | None \<Rightarrow> zeroTime),
                       End = (case parseDay L endRaw of
                                Some d \<Rightarrow> newLocation (zones st + 1) d | None \<Rightarrow> zeroTime)\<rparr>],
                     zones := zones st + 2\<rparr>)))) \<and>
   (\<not> (ColorId item \<noteq> [] \<or> rspStatusFrom item = ''declined'') \<longrightarrow>
      main_step L False st item =
        (case startDateFrom item of
           None \<Rightarrow> None
         | Some startRaw \<Rightarrow>
             (case endDateFrom item of
                None \<Rightarrow> None
              | Some endRaw \<Rightarrow>
                  Some (st\<lparr>prevDay := (case parseDay L startRaw of
                                          Some d \<Rightarrow> truncDay L (newLocation (zones st) d)
                                        | None \<Rightarrow> zeroTime),
                       stdout := stdout st
                         @ (if (case parseDay L startRaw of
                                  Some d \<Rightarrow> truncDay L (newLocation (zones st) d)
                                | None \<Rightarrow> zeroTime) \<noteq> prevDay st
                            then separator else [])
                         @ (case parseDay L startRaw of
                              Some d \<Rightarrow> time_Format L (newLocation (zones st) d) ''2006-01-02 15:04''
                            | None \<Rightarrow> startRaw)
                         @ ''-''
                         @ (case parseDay L endRaw of
                              Some d \<Rightarrow> time_Format L (newLocation (zones st + 1) d) ''15:04''
                            | None \<Rightarrow> endRaw)
                         @ '' '' @ pad40 L (Summary item) @ '' '' @ urlFrom item
                         @ (if rspStatusFrom item \<noteq> [] \<and> rspStatusFrom item \<noteq> ''accepted''
                            then '' ['' @ rspStatusFrom item @ '': '' @ HtmlLink item @ '']''
                            else [])
                         @ newline,
                       zones := zones st + 2\<rparr>)))) \<and>
   main_loop L summarize st items =
   main_loop L summarize st
     (filter (\<lambda>item. \<not> (ColorId item \<noteq> [] \<or> rspStatusFrom item = ''declined'')) items) \<and>
   main_loop L summarize st (item # items) =
     (case main_step L summarize st item of
        None \<Rightarrow> Inl (stdout st)
      | Some st1 \<Rightarrow> main_loop L summarize st1 items) \<and>
   (\<forall>st'. main_loop L True st items = Inr st' \<longrightarrow>
      length (evs st') = length (evs st) +
        length (filter (\<lambda>item. \<not> (ColorId item \<noteq> [] \<or> rspStatusFrom item = ''declined'')) items)) \<and>
   main_loop L summarize st [] = Inr st \<and>
   (items \<noteq> [] \<longrightarrow>
      main_core L True now now2 items =
        (case main_loop L True \<lparr>prevDay = truncDay L now, evs = [], stdout = [], zones = 0\<rparr>
                (filter (\<lambda>item. \<not> (ColorId item \<noteq> [] \<or> rspStatusFrom item = ''declined'')) items) of
           Inl printed \<Rightarrow> Panicked printed
         | Inr st' \<Rightarrow>
             Finished (stdout st' @ summary_loop L (truncDay L now2) (collapse (evs st'))))) \<and>
   (items \<noteq> [] \<longrightarrow>
      main_core L False now now2 items =
        (case main_loop L False \<lparr>prevDay = truncDay L now, evs = [], stdout = [], zones = 0\<rparr>
                (filter (\<lambda>item. \<not> (ColorId item \<noteq> [] \<or> rspStatusFrom item = ''declined'')) items) of
           Inl printed \<Rightarrow> Panicked printed
         | Inr st' \<Rightarrow> Finished (stdout st')))"
proof -
  have skip: "ColorId item \<noteq> [] \<or> rspStatusFrom item = ''declined'' \<longrightarrow>
      main_step L summarize st item = Some st"
    using main_step_skipped by blast
  have iff: "(main_step L summarize st item = Some st) =
      (ColorId item \<noteq> [] \<or> rspStatusFrom item = ''declined'')"
    using skip main_step_changes [of item L summarize st] by blast
  have summ: "main_step L True st item =
        (case startDateFrom item of
           None \<Rightarrow> None
         | Some startRaw \<Rightarrow>
             (case endDateFrom item of
                None \<Rightarrow> None
              | Some endRaw \<Rightarrow>
                  Some (st\<lparr>evs := evs st @
                     [\<lparr>Start = (case parseDay L startRaw of
                                  Some d \<Rightarrow> newLocation (zones st) d | None \<Rightarrow> zeroTime),
                       End = (case parseDay L endRaw of
                                Some d \<Rightarrow> newLocation (zones st + 1) d | None \<Rightarrow> zeroTime)\<rparr>],
                     zones := zones st + 2\<rparr>)))"
    if "\<not> (ColorId item \<noteq> [] \<or> rspStatusFrom item = ''declined'')"
  proof -
    have k: "ColorId item = []" "rspStatusFrom item \<noteq> ''declined''" using that by simp_all
    show ?thesis
    proof (cases "startDateFrom item")
      case None
      then show ?thesis using main_step_nil [OF k, of L True st] by simp
    next
      case (Some startRaw)
      note s = Some
      show ?thesis
      proof (cases "endDateFrom item")
        case None
        then show ?thesis using s main_step_nil [OF k, of L True st] by simp
      next
        case (Some endRaw)
        show ?thesis using main_step_summarize [OF k s Some, of L st] s Some by simp
      qed
    qed
  qed
  have det: "main_step L False st item =
        (case startDateFrom item of
           None \<Rightarrow> None
         | Some startRaw \<Rightarrow>
             (case endDateFrom item of
                None \<Rightarrow> None
              | Some endRaw \<Rightarrow>
                  Some (st\<lparr>prevDay := (case parseDay L startRaw of
                                          Some d \<Rightarrow> truncDay L (newLocation (zones st) d)
                                        | None \<Rightarrow> zeroTime),
                       stdout := stdout st
                         @ (if (case parseDay L startRaw of
                                  Some d \<Rightarrow> truncDay L (newLocation (zones st) d)
                                | None \<Rightarrow> zeroTime) \<noteq> prevDay st
                            then separator else [])
                         @ (case parseDay L startRaw of
                              Some d \<Rightarrow> time_Format L (newLocation (zones st) d) ''2006-01-02 15:04''
                            | None \<Rightarrow> startRaw)
                         @ ''-''
                         @ (case parseDay L endRaw of
                              Some d \<Rightarrow> time_Format L (newLocation (zones st + 1) d) ''15:04''
                            | None \<Rightarrow> endRaw)
                         @ '' '' @ pad40 L (Summary item) @ '' '' @ urlFrom item
                         @ (if rspStatusFrom item \<noteq> [] \<and> rspStatusFrom item \<noteq> ''accepted''
                            then '' ['' @ rspStatusFrom item @ '': '' @ HtmlLink item @ '']''
                            else [])
                         @ newline,
                       zones := zones st + 2\<rparr>)))"
    if "\<not> (ColorId item \<noteq> [] \<or> rspStatusFrom item = ''declined'')"
  proof -
    have k: "ColorId item = []" "rspStatusFrom item \<noteq> ''declined''" using that by simp_all
    show ?thesis
    proof (cases "startDateFrom item")
      case None
      then show ?thesis using main_step_nil [OF k, of L False st] by simp
    next
      case (Some startRaw)
      note s = Some
      show ?thesis
      proof (cases "endDateFrom item")
        case None
        then show ?thesis using s main_step_nil [OF k, of L False st] by simp
      next
        case (Some endRaw)
        show ?thesis unfolding main_step_detail [OF k s Some, of L st] s Some by simp
      qed
    qed
  qed
  have loop: "main_loop L summarize st (item # items) =
     (case main_step L summarize st item of
        None \<Rightarrow> Inl (stdout st)
      | Some st1 \<Rightarrow> main_loop L summarize st1 items)"
    by simp
  have coll: "\<forall>st'. main_loop L True st items = Inr st' \<longrightarrow>
      length (evs st') = length (evs st) +
        length (filter (\<lambda>item. \<not> (ColorId item \<noteq> [] \<or> rspStatusFrom item = ''declined'')) items)"
    using main_loop_collects [of L st items] by blast
  have coreT: "main_core L True now now2 items =
        (case main_loop L True \<lparr>prevDay = truncDay L now, evs = [], stdout = [], zones = 0\<rparr>
                (filter (\<lambda>item. \<not> (ColorId item \<noteq> [] \<or> rspStatusFrom item = ''declined'')) items) of
           Inl printed \<Rightarrow> Panicked printed
         | Inr st' \<Rightarrow>
             Finished (stdout st' @ summary_loop L (truncDay L now2) (collapse (evs st'))))"
    if "items \<noteq> []"
    using that
      main_loop_filter [of L True "\<lparr>prevDay = truncDay L now, evs = [], stdout = [], zones = 0\<rparr>" items]
    by (simp add: main_core_def split: sum.splits)
  have coreF: "main_core L False now now2 items =
        (case main_loop L False \<lparr>prevDay = truncDay L now, evs = [], stdout = [], zones = 0\<rparr>
                (filter (\<lambda>item. \<not> (ColorId item \<noteq> [] \<or> rspStatusFrom item = ''declined'')) items) of
           Inl printed \<Rightarrow> Panicked printed
         | Inr st' \<Rightarrow> Finished (stdout st'))"
    if "items \<noteq> []"
    using that
      main_loop_filter [of L False "\<lparr>prevDay = truncDay L now, evs = [], stdout = [], zones = 0\<rparr>" items]
    by (simp add: main_core_def split: sum.splits)
  note summ' = impI [OF summ]
  note det' = impI [OF det]
  note filt = main_loop_filter [of L summarize st items]
  show ?thesis
    apply (intro conjI)
    subgoal by (rule skip)
    subgoal by (rule iff)
    subgoal by (rule summ')
    subgoal by (rule impI) (erule det)
    subgoal by (rule filt)
    subgoal by (rule loop)
    subgoal by (rule coll)
    subgoal by simp
    subgoal by (rule impI) (erule coreT)
    subgoal by (rule impI) (erule coreF)
    done
qed


theorem skipped_iff_colored_or_declined_witness:
  "ColorId (raw_event ''4'' ''AFK'' [] [] ''2021-03-02'' ''2021-03-03'') \<noteq> [] \<and>
   main_step ref_lib False \<lparr>prevDay = zeroTime, evs = [], stdout = [], zones = 0\<rparr>
     (raw_event ''4'' ''AFK'' [] [] ''2021-03-02'' ''2021-03-03'') =
     Some \<lparr>prevDay = zeroTime, evs = [], stdout = [], zones = 0\<rparr> \<and>
   rspStatusFrom (raw_event [] ''Review'' [] ''declined'' ''2021-03-02'' ''2021-03-03'') = ''declined'' \<and>
   main_step ref_lib True \<lparr>prevDay = zeroTime, evs = [], stdout = [], zones = 0\<rparr>
     (raw_event [] ''Review'' [] ''declined'' ''2021-03-02'' ''2021-03-03'') =
     Some \<lparr>prevDay = zeroTime, evs = [], stdout = [], zones = 0\<rparr> \<and>
   \<not> (ColorId (raw_event [] ''Standup'' ''Room 1'' ''accepted'' ''2021-03-01T10:30:00+05:30'' ''2021-03-01T11:00:00+05:30'') \<noteq> [] \<or>
      rspStatusFrom (raw_event [] ''Standup'' ''Room 1'' ''accepted'' ''2021-03-01T10:30:00+05:30'' ''2021-03-01T11:00:00+05:30'') = ''declined'') \<and>
   main_step ref_lib True \<lparr>prevDay = zeroTime, evs = [], stdout = [], zones = 0\<rparr>
     (raw_event [] ''Standup'' ''Room 1'' ''accepted'' ''2021-03-01T10:30:00+05:30'' ''2021-03-01T11:00:00+05:30'') =
     Some \<lparr>prevDay = zeroTime,
           evs = [\<lparr>Start = ref_Date 2021 3 1 10 30 0 0 (FixedZone 0 [] 19800),
                   End = ref_Date 2021 3 1 11 0 0 0 (FixedZone 1 [] 19800)\<rparr>],
           stdout = [], zones = 2\<rparr> \<and>
   main_step ref_lib False \<lparr>prevDay = zeroTime, evs = [], stdout = [], zones = 0\<rparr>
     (raw_event [] ''Standup'' ''Room 1'' ''accepted'' ''2021-03-01T10:30:00+05:30'' ''2021-03-01T11:00:00+05:30'') =
     Some \<lparr>prevDay = ref_Date 2021 3 1 0 0 0 0 (FixedZone 0 [] 19800), evs = [],
           stdout = separator @ ''2021-03-01 10:30-11:00 Standup                                  Room 1'' @ newline,
           zones = 2\<rparr>"
proof -
  have a: "ColorId (raw_event ''4'' ''AFK'' [] [] ''2021-03-02'' ''2021-03-03'') \<noteq> []"
    by code_simp
  have b: "rspStatusFrom (raw_event [] ''Review'' [] ''declined'' ''2021-03-02'' ''2021-03-03'') = ''declined''"
    by code_simp
  have c: "\<not> (ColorId (raw_event [] ''Standup'' ''Room 1'' ''accepted'' ''2021-03-01T10:30:00+05:30'' ''2021-03-01T11:00:00+05:30'') \<noteq> [] \<or>
      rspStatusFrom (raw_event [] ''Standup'' ''Room 1'' ''accepted'' ''2021-03-01T10:30:00+05:30'' ''2021-03-01T11:00:00+05:30'') = ''declined'')"
    by code_simp
  have w1: "main_step ref_lib False \<lparr>prevDay = zeroTime, evs = [], stdout = [], zones = 0\<rparr>
     (raw_event ''4'' ''AFK'' [] [] ''2021-03-02'' ''2021-03-03'') =
     Some \<lparr>prevDay = zeroTime, evs = [], stdout = [], zones = 0\<rparr>"
    by (rule skipped_iff_colored_or_declined [THEN conjunct1, rule_format, OF disjI1 [OF a]])
  have w2: "main_step ref_lib True \<lparr>prevDay = zeroTime, evs = [], stdout = [], zones = 0\<rparr>
     (raw_event [] ''Review'' [] ''declined'' ''2021-03-02'' ''2021-03-03'') =
     Some \<lparr>prevDay = zeroTime, evs = [], stdout = [], zones = 0\<rparr>"
    by (rule skipped_iff_colored_or_declined [THEN conjunct1, rule_format, OF disjI2 [OF b]])
  have w3: "main_step ref_lib True \<lparr>prevDay = zeroTime, evs = [], stdout = [], zones = 0\<rparr>
     (raw_event [] ''Standup'' ''Room 1'' ''accepted'' ''2021-03-01T10:30:00+05:30'' ''2021-03-01T11:00:00+05:30'') =
     Some \<lparr>prevDay = zeroTime,
           evs = [\<lparr>Start = ref_Date 2021 3 1 10 30 0 0 (FixedZone 0 [] 19800),
                   End = ref_Date 2021 3 1 11 0 0 0 (FixedZone 1 [] 19800)\<rparr>],
           stdout = [], zones = 2\<rparr>"
    by (subst skipped_iff_colored_or_declined
          [THEN conjunct2, THEN conjunct2, THEN conjunct1, rule_format, OF c]) code_simp
  have w4: "main_step ref_lib False \<lparr>prevDay = zeroTime, evs = [], stdout = [], zones = 0\<rparr>
     (raw_event [] ''Standup'' ''Room 1'' ''accepted'' ''2021-03-01T10:30:00+05:30'' ''2021-03-01T11:00:00+05:30'') =
     Some \<lparr>prevDay = ref_Date 2021 3 1 0 0 0 0 (FixedZone 0 [] 19800), evs = [],
           stdout = separator @ ''2021-03-01 10:30-11:00 Standup                                  Room 1'' @ newline,
           zones = 2\<rparr>"
    by (subst skipped_iff_colored_or_declined
          [THEN conjunct2, THEN conjunct2, THEN conjunct2, THEN conjunct1, rule_format, OF c]) code_simp
  show ?thesis using a b c w1 w2 w3 w4 by fast
qed

text \<open>
  C2, as the claim states it, fails: a single retrieved event that carries a colour tag is
  filtered out, and the program then prints nothing at all, not the line about no events.
\<close>

theorem no_events_line_counterexample:
  "ColorId (raw_event ''4'' ''AFK'' [] [] ''2021-03-02'' ''2021-03-03'') \<noteq> [] \<and>
   main_core ref_lib False (ref_Date 2021 3 1 8 0 0 0 Local) (ref_Date 2021 3 1 8 0 0 0 Local)
     [raw_event ''4'' ''AFK'' [] [] ''2021-03-02'' ''2021-03-03''] = Finished [] \<and>
   main_core ref_lib True (ref_Date 2021 3 1 8 0 0 0 Local) (ref_Date 2021 3 1 8 0 0 0 Local)
     [raw_event ''4'' ''AFK'' [] [] ''2021-03-02'' ''2021-03-03''] = Finished [] \<and>
   main_core ref_lib False (ref_Date 2021 3 1 8 0 0 0 Local) (ref_Date 2021 3 1 8 0 0 0 Local)
     [raw_event ''4'' ''AFK'' [] [] ''2021-03-02'' ''2021-03-03''] \<noteq>
     Finished (''No upcoming events found.'' @ newline)"
  by code_simp

text \<open>
  C2, amended. The line about no events depends on the list of events as retrieved, before
  any filtering: when that list is empty the program prints exactly the line
  \<^verbatim>\<open>No upcoming events found.\<close> and nothing else; when it is not empty but every event is
  filtered out, the program prints nothing.
\<close>

theorem no_events_line:
  "main_core L summarize now now2 [] = Finished (''No upcoming events found.'' @ newline) \<and>
   (items \<noteq> [] \<and> (\<forall>item \<in> set items. ColorId item \<noteq> [] \<or> rspStatusFrom item = ''declined'') \<longrightarrow>
      main_core L summarize now now2 items = Finished [])"
proof -
  have "main_core L summarize now now2 [] = Finished (''No upcoming events found.'' @ newline)"
    by (simp add: main_core_def)
  moreover have "main_core L summarize now now2 items = Finished []"
    if "items \<noteq> []" and "\<forall>item \<in> set items. ColorId item \<noteq> [] \<or> rspStatusFrom item = ''declined''"
    using that main_loop_all_skipped [OF that(2), of L summarize
        "\<lparr>prevDay = truncDay L now, evs = [], stdout = [], zones = 0\<rparr>"]
    by (simp add: main_core_def)
  ultimately show ?thesis by blast
qed

theorem no_events_line_witness:
  "main_core ref_lib False zeroTime zeroTime [] =
     Finished (''No upcoming events found.'' @ newline) \<and>
   ColorId (raw_event ''4'' ''AFK'' [] [] ''2021-03-02'' ''2021-03-03'') \<noteq> [] \<and>
   rspStatusFrom (raw_event [] ''Review'' [] ''declined'' ''2021-03-02'' ''2021-03-03'') = ''declined'' \<and>
   main_core ref_lib True zeroTime zeroTime
     [raw_event ''4'' ''AFK'' [] [] ''2021-03-02'' ''2021-03-03'',
      raw_event [] ''Review'' [] ''declined'' ''2021-03-02'' ''2021-03-03''] = Finished []"
proof -
  have c: "ColorId (raw_event ''4'' ''AFK'' [] [] ''2021-03-02'' ''2021-03-03'') \<noteq> []"
    by code_simp
  have d: "rspStatusFrom (raw_event [] ''Review'' [] ''declined'' ''2021-03-02'' ''2021-03-03'') = ''declined''"
    by code_simp
  have h: "[raw_event ''4'' ''AFK'' [] [] ''2021-03-02'' ''2021-03-03'',
    raw_event [] ''Review'' [] ''declined'' ''2021-03-02'' ''2021-03-03''] \<noteq> [] \<and>
   (\<forall>item \<in> set [raw_event ''4'' ''AFK'' [] [] ''2021-03-02'' ''2021-03-03'',
                   raw_event [] ''Review'' [] ''declined'' ''2021-03-02'' ''2021-03-03''].
      ColorId item \<noteq> [] \<or> rspStatusFrom item = ''declined'')"
    using c d by simp
  show ?thesis
    using c d no_events_line [THEN conjunct1, of ref_lib False zeroTime zeroTime]
      no_events_line [THEN conjunct2, rule_format, OF h, of ref_lib True zeroTime zeroTime]
    by fast
qed


text \<open>
  C8, as the claim states it, fails: the summary is not left-padded. The spaces that fill
  the 40 columns follow the summary (\<^verbatim>\<open>%-40s\<close>), they do not precede it.
\<close>

theorem detail_line_counterexample:
  "main_step ref_lib False
     \<lparr>prevDay = ref_Date 2021 3 1 0 0 0 0 UTC, evs = [], stdout = [], zones = 0\<rparr>
     (raw_event [] ''Standup'' ''Room 1'' ''tentative'' ''2021-03-01T10:30:00Z'' ''2021-03-01T11:00:00Z'') =
   Some \<lparr>prevDay = ref_Date 2021 3 1 0 0 0 0 UTC, evs = [],
         stdout = ''2021-03-01 10:30-11:00 Standup                                  Room 1 [tentative: https://cal.example/e1]'' @ newline,
         zones = 2\<rparr> \<and>
   ''2021-03-01 10:30-11:00 Standup                                  Room 1 [tentative: https://cal.example/e1]'' @ newline \<noteq>
   ''2021-03-01 10:30-11:00 '' @ spec_left_padded40 ref_lib ''Standup''
      @ '' Room 1 [tentative: https://cal.example/e1]'' @ newline"
  by code_simp

text \<open>
  C8, amended. The text printed for an event in detail mode is, after the day separator if
  one is due, \<^verbatim>\<open><start>-<end> <summary> <url>\<close> where the summary is followed by spaces up to
  a width of 40 runes (left-justified, never cut), then \<^verbatim>\<open> [<status>: <weblink>]\<close> exactly
  when the resolved response status is non-empty and not \<^verbatim>\<open>accepted\<close>, then a newline.
  The separator is due when the day of the event, as a \<^verbatim>\<open>Time\<close> with its location, differs
  from the day tracked; the start and the end are located where this iteration's two calls
  of \<^verbatim>\<open>parseDay\<close> put them.
\<close>

theorem detail_line_format:
  assumes "ColorId item = []" and "rspStatusFrom item \<noteq> ''declined''"
    and "startDateFrom item = Some startRaw" and "endDateFrom item = Some endRaw"
  shows "main_step L False st item =
         Some (st\<lparr>prevDay := (case parseDay L startRaw of
                                 Some d \<Rightarrow> truncDay L (newLocation (zones st) d)
                               | None \<Rightarrow> zeroTime),
                  stdout := stdout st
                    @ (if (case parseDay L startRaw of
                             Some d \<Rightarrow> truncDay L (newLocation (zones st) d)
                           | None \<Rightarrow> zeroTime) \<noteq> prevDay st
                       then separator else [])
                    @ (case parseDay L startRaw of
                         Some d \<Rightarrow> time_Format L (newLocation (zones st) d) ''2006-01-02 15:04''
                       | None \<Rightarrow> startRaw)
                    @ ''-''
                    @ (case parseDay L endRaw of
                         Some d \<Rightarrow> time_Format L (newLocation (zones st + 1) d) ''15:04''
                       | None \<Rightarrow> endRaw)
                    @ '' ''
                    @ Summary item @ replicate (40 - RuneCountInString L (Summary item)) CHR '' ''
                    @ '' '' @ urlFrom item
                    @ (if rspStatusFrom item = [] \<or> rspStatusFrom item = ''accepted''
                       then []
                       else '' ['' @ rspStatusFrom item @ '': '' @ HtmlLink item @ '']'')
                    @ newline,
                  zones := zones st + 2\<rparr>)"
  using main_step_detail [OF assms, of L st] by (simp add: pad40_def)

theorem detail_line_format_witness:
  "ColorId (raw_event [] ''Review'' [] ''tentative'' ''2021-03-01T14:00:00+05:30'' ''2021-03-01T15:00:00+05:30'') = [] \<and>
   rspStatusFrom (raw_event [] ''Review'' [] ''tentative'' ''2021-03-01T14:00:00+05:30'' ''2021-03-01T15:00:00+05:30'') \<noteq> ''declined'' \<and>
   main_step ref_lib False
     \<lparr>prevDay = ref_Date 2021 3 1 0 0 0 0 (FixedZone 0 [] 19800), evs = [], stdout = [], zones = 2\<rparr>
     (raw_event [] ''Review'' [] ''tentative'' ''2021-03-01T14:00:00+05:30'' ''2021-03-01T15:00:00+05:30'') =
   Some \<lparr>prevDay = ref_Date 2021 3 1 0 0 0 0 (FixedZone 2 [] 19800), evs = [],
         stdout = separator @ ''2021-03-01 14:00-15:00 Review                                    [tentative: https://cal.example/e1]'' @ newline,
         zones = 4\<rparr> \<and>
   main_step ref_lib False
     \<lparr>prevDay = ref_Date 2021 3 1 0 0 0 0 Local, evs = [], stdout = [], zones = 2\<rparr>
     (raw_event [] ''Standup'' ''Room 1'' ''accepted'' ''2021-03-01T10:30:00+00:00'' ''2021-03-01T11:00:00+00:00'') =
   Some \<lparr>prevDay = ref_Date 2021 3 1 0 0 0 0 Local, evs = [],
         stdout = ''2021-03-01 10:30-11:00 Standup                                  Room 1'' @ newline,
         zones = 4\<rparr>"
proof -
  have h1: "ColorId (raw_event [] ''Review'' [] ''tentative'' ''2021-03-01T14:00:00+05:30'' ''2021-03-01T15:00:00+05:30'') = []"
    by code_simp
  have h2: "rspStatusFrom (raw_event [] ''Review'' [] ''tentative'' ''2021-03-01T14:00:00+05:30'' ''2021-03-01T15:00:00+05:30'') \<noteq> ''declined''"
    by code_simp
  have h3: "startDateFrom (raw_event [] ''Review'' [] ''tentative'' ''2021-03-01T14:00:00+05:30'' ''2021-03-01T15:00:00+05:30'') = Some ''2021-03-01T14:00:00+05:30''"
    by code_simp
  have h4: "endDateFrom (raw_event [] ''Review'' [] ''tentative'' ''2021-03-01T14:00:00+05:30'' ''2021-03-01T15:00:00+05:30'') = Some ''2021-03-01T15:00:00+05:30''"
    by code_simp
  have g1: "ColorId (raw_event [] ''Standup'' ''Room 1'' ''accepted'' ''2021-03-01T10:30:00+00:00'' ''2021-03-01T11:00:00+00:00'') = []"
    by code_simp
  have g2: "rspStatusFrom (raw_event [] ''Standup'' ''Room 1'' ''accepted'' ''2021-03-01T10:30:00+00:00'' ''2021-03-01T11:00:00+00:00'') \<noteq> ''declined''"
    by code_simp
  have g3: "startDateFrom (raw_event [] ''Standup'' ''Room 1'' ''accepted'' ''2021-03-01T10:30:00+00:00'' ''2021-03-01T11:00:00+00:00'') = Some ''2021-03-01T10:30:00+00:00''"
    by code_simp
  have g4: "endDateFrom (raw_event [] ''Standup'' ''Room 1'' ''accepted'' ''2021-03-01T10:30:00+00:00'' ''2021-03-01T11:00:00+00:00'') = Some ''2021-03-01T11:00:00+00:00''"
    by code_simp
  have v: "main_step ref_lib False
     \<lparr>prevDay = ref_Date 2021 3 1 0 0 0 0 (FixedZone 0 [] 19800), evs = [], stdout = [], zones = 2\<rparr>
     (raw_event [] ''Review'' [] ''tentative'' ''2021-03-01T14:00:00+05:30'' ''2021-03-01T15:00:00+05:30'') =
   Some \<lparr>prevDay = ref_Date 2021 3 1 0 0 0 0 (FixedZone 2 [] 19800), evs = [],
         stdout = separator @ ''2021-03-01 14:00-15:00 Review                                    [tentative: https://cal.example/e1]'' @ newline,
         zones = 4\<rparr>"
    by (subst detail_line_format [OF h1 h2 h3 h4]) code_simp
  have w: "main_step ref_lib False
     \<lparr>prevDay = ref_Date 2021 3 1 0 0 0 0 Local, evs = [], stdout = [], zones = 2\<rparr>
     (raw_event [] ''Standup'' ''Room 1'' ''accepted'' ''2021-03-01T10:30:00+00:00'' ''2021-03-01T11:00:00+00:00'') =
   Some \<lparr>prevDay = ref_Date 2021 3 1 0 0 0 0 Local, evs = [],
         stdout = ''2021-03-01 10:30-11:00 Standup                                  Room 1'' @ newline,
         zones = 4\<rparr>"
    by (subst detail_line_format [OF g1 g2 g3 g4]) code_simp
  show ?thesis using h1 h2 v w by fast
qed

text \<open>
  C9, as the claim states it, fails: an all-day event, whose start and end come from the
  date-only fields, is printed with a time of day, \<^verbatim>\<open>2021-03-02 00:00-00:00\<close>, and not as
  the two dates.
\<close>

theorem rendering_by_time_component_counterexample:
  "calendar_Event.Start (raw_event [] ''Holiday'' [] [] ''2021-03-02'' ''2021-03-03'') =
     Some \<lparr>Date = ''2021-03-02'', DateTime = []\<rparr> \<and>
   calendar_Event.End (raw_event [] ''Holiday'' [] [] ''2021-03-02'' ''2021-03-03'') =
     Some \<lparr>Date = ''2021-03-03'', DateTime = []\<rparr> \<and>
   parseDay ref_lib ''2021-03-02'' = Some (ref_Date 2021 3 2 0 0 0 0 UTC) \<and>
   parseDay ref_lib ''2021-03-03'' = Some (ref_Date 2021 3 3 0 0 0 0 UTC) \<and>
   main_step ref_lib False
     \<lparr>prevDay = ref_Date 2021 3 2 0 0 0 0 UTC, evs = [], stdout = [], zones = 0\<rparr>
     (raw_event [] ''Holiday'' [] [] ''2021-03-02'' ''2021-03-03'') =
   Some \<lparr>prevDay = ref_Date 2021 3 2 0 0 0 0 UTC, evs = [],
         stdout = ''2021-03-02 00:00-00:00 Holiday'' @ replicate 33 CHR '' '' @ '' '' @ newline,
         zones = 2\<rparr> \<and>
   spec_rendered ref_lib False (ref_Date 2021 3 2 0 0 0 0 UTC) = ''2021-03-02'' \<and>
   spec_rendered ref_lib False (ref_Date 2021 3 3 0 0 0 0 UTC) = ''2021-03-03'' \<and>
   ''2021-03-02 00:00-00:00 Holiday'' @ replicate 33 CHR '' '' @ '' '' @ newline \<noteq>
   spec_rendered ref_lib False (ref_Date 2021 3 2 0 0 0 0 UTC) @ ''-''
     @ spec_rendered ref_lib False (ref_Date 2021 3 3 0 0 0 0 UTC)
     @ '' Holiday'' @ replicate 33 CHR '' '' @ '' '' @ newline"
  by code_simp

text \<open>
  C9, amended. The layouts are fixed. In detail mode a start that parses is printed as date
  and time of day (\<^verbatim>\<open>2006-01-02 15:04\<close>) and an end that parses as time of day
  (\<^verbatim>\<open>15:04\<close>); a start or an end that does not parse is printed as the raw text it is. In
  summary mode every interval is printed with the same two layouts. Whether the raw value
  was carried by the date-only field or by the timestamp field makes no difference.
\<close>

theorem rendering_layouts_fixed:
  "(ColorId item = [] \<and> rspStatusFrom item \<noteq> ''declined'' \<and>
    startDateFrom item = Some startRaw \<and> endDateFrom item = Some endRaw \<longrightarrow>
      main_step L False st item =
      Some (st\<lparr>prevDay := (case parseDay L startRaw of
                              Some d \<Rightarrow> truncDay L (newLocation (zones st) d)
                            | None \<Rightarrow> zeroTime),
               stdout := stdout st
                 @ (if (case parseDay L startRaw of
                          Some d \<Rightarrow> truncDay L (newLocation (zones st) d)
                        | None \<Rightarrow> zeroTime) \<noteq> prevDay st
                    then separator else [])
                 @ (case parseDay L startRaw of
                      Some d \<Rightarrow> time_Format L (newLocation (zones st) d) ''2006-01-02 15:04''
                    | None \<Rightarrow> startRaw)
                 @ ''-''
                 @ (case parseDay L endRaw of
                      Some d \<Rightarrow> time_Format L (newLocation (zones st + 1) d) ''15:04''
                    | None \<Rightarrow> endRaw)
                 @ '' '' @ pad40 L (Summary item) @ '' '' @ urlFrom item
                 @ (if rspStatusFrom item \<noteq> [] \<and> rspStatusFrom item \<noteq> ''accepted''
                    then '' ['' @ rspStatusFrom item @ '': '' @ HtmlLink item @ '']''
                    else [])
                 @ newline,
               zones := zones st + 2\<rparr>)) \<and>
   summary_loop L prev (i # c) =
     (if truncDay L (Start i) \<noteq> prev then separator else [])
     @ time_Format L (Start i) ''2006-01-02 15:04'' @ ''-'' @ time_Format L (End i) ''15:04''
     @ newline @ summary_loop L (truncDay L (Start i)) c \<and>
   summary_loop L prev [] = [] \<and>
   main_step L summarize st (item\<lparr>calendar_Event.Start := Some \<lparr>Date = v, DateTime = []\<rparr>\<rparr>) =
   main_step L summarize st (item\<lparr>calendar_Event.Start := Some \<lparr>Date = [], DateTime = v\<rparr>\<rparr>) \<and>
   main_step L summarize st (item\<lparr>calendar_Event.End := Some \<lparr>Date = v, DateTime = []\<rparr>\<rparr>) =
   main_step L summarize st (item\<lparr>calendar_Event.End := Some \<lparr>Date = [], DateTime = v\<rparr>\<rparr>)"
proof -
  have a: "main_step L False st item =
      Some (st\<lparr>prevDay := (case parseDay L startRaw of
                              Some d \<Rightarrow> truncDay L (newLocation (zones st) d)
                            | None \<Rightarrow> zeroTime),
               stdout := stdout st
                 @ (if (case parseDay L startRaw of
                          Some d \<Rightarrow> truncDay L (newLocation (zones st) d)
                        | None \<Rightarrow> zeroTime) \<noteq> prevDay st
                    then separator else [])
                 @ (case parseDay L startRaw of
                      Some d \<Rightarrow> time_Format L (newLocation (zones st) d) ''2006-01-02 15:04''
                    | None \<Rightarrow> startRaw)
                 @ ''-''
                 @ (case parseDay L endRaw of
                      Some d \<Rightarrow> time_Format L (newLocation (zones st + 1) d) ''15:04''
                    | None \<Rightarrow> endRaw)
                 @ '' '' @ pad40 L (Summary item) @ '' '' @ urlFrom item
                 @ (if rspStatusFrom item \<noteq> [] \<and> rspStatusFrom item \<noteq> ''accepted''
                    then '' ['' @ rspStatusFrom item @ '': '' @ HtmlLink item @ '']''
                    else [])
                 @ newline,
               zones := zones st + 2\<rparr>)"
    if "ColorId item = [] \<and> rspStatusFrom item \<noteq> ''declined'' \<and>
        startDateFrom item = Some startRaw \<and> endDateFrom item = Some endRaw"
  proof -
    have c: "ColorId item = []" "rspStatusFrom item \<noteq> ''declined''"
      "startDateFrom item = Some startRaw" "endDateFrom item = Some endRaw"
      using that by simp_all
    show ?thesis by (rule main_step_detail [OF c])
  qed
  have b: "summary_loop L prev (i # c) =
     (if truncDay L (Start i) \<noteq> prev then separator else [])
     @ time_Format L (Start i) ''2006-01-02 15:04'' @ ''-'' @ time_Format L (End i) ''15:04''
     @ newline @ summary_loop L (truncDay L (Start i)) c"
    by (simp add: Let_def)
  have s: "main_step L summarize st (item\<lparr>calendar_Event.Start := Some \<lparr>Date = v, DateTime = []\<rparr>\<rparr>) =
   main_step L summarize st (item\<lparr>calendar_Event.Start := Some \<lparr>Date = [], DateTime = v\<rparr>\<rparr>)"
    by (rule main_step_cong)
      (simp_all add: startDateFrom_def endDateFrom_def rspStatusFrom_def urlFrom_def Let_def
         del: findUrl_FindString.simps)
  have e: "main_step L summarize st (item\<lparr>calendar_Event.End := Some \<lparr>Date = v, DateTime = []\<rparr>\<rparr>) =
   main_step L summarize st (item\<lparr>calendar_Event.End := Some \<lparr>Date = [], DateTime = v\<rparr>\<rparr>)"
    by (rule main_step_cong)
      (simp_all add: startDateFrom_def endDateFrom_def rspStatusFrom_def urlFrom_def Let_def
         del: findUrl_FindString.simps)
  show ?thesis
    apply (intro conjI)
    subgoal by (rule impI) (erule a)
    subgoal by (rule b)
    subgoal by simp
    subgoal by (rule s)
    subgoal by (rule e)
    done
qed

theorem rendering_layouts_fixed_witness:
  "ColorId (raw_event [] ''Holiday'' [] [] ''2021-03-02'' ''2021-03-03'') = [] \<and>
   rspStatusFrom (raw_event [] ''Holiday'' [] [] ''2021-03-02'' ''2021-03-03'') \<noteq> ''declined'' \<and>
   startDateFrom (raw_event [] ''Holiday'' [] [] ''2021-03-02'' ''2021-03-03'') = Some ''2021-03-02'' \<and>
   endDateFrom (raw_event [] ''Holiday'' [] [] ''2021-03-02'' ''2021-03-03'') = Some ''2021-03-03'' \<and>
   main_step ref_lib False \<lparr>prevDay = zeroTime, evs = [], stdout = [], zones = 0\<rparr>
     (raw_event [] ''Holiday'' [] [] ''2021-03-02'' ''2021-03-03'') =
   Some \<lparr>prevDay = ref_Date 2021 3 2 0 0 0 0 UTC, evs = [],
         stdout = separator @ ''2021-03-02 00:00-00:00 Holiday'' @ replicate 33 CHR '' '' @ '' '' @ newline,
         zones = 2\<rparr> \<and>
   startDateFrom (raw_event [] ''Lunch'' [] [] ''tomorrow'' ''2021-03-01T13:00:00Z'') = Some ''tomorrow'' \<and>
   parseDay ref_lib ''tomorrow'' = None \<and>
   main_step ref_lib False \<lparr>prevDay = zeroTime, evs = [], stdout = [], zones = 0\<rparr>
     (raw_event [] ''Lunch'' [] [] ''tomorrow'' ''2021-03-01T13:00:00Z'') =
   Some \<lparr>prevDay = zeroTime, evs = [],
         stdout = ''tomorrow-13:00 Lunch'' @ replicate 35 CHR '' '' @ '' '' @ newline,
         zones = 2\<rparr> \<and>
   main_core ref_lib True (ref_Date 2021 3 1 8 0 0 0 Local) (ref_Date 2021 3 1 8 0 0 0 Local)
     [raw_event [] ''Standup'' [] [] ''2021-03-01T10:30:00+05:30'' ''2021-03-01T11:00:00+05:30'',
      raw_event [] ''Review'' [] [] ''2021-03-01T14:00:00+05:30'' ''2021-03-01T15:00:00+05:30''] =
   Finished (separator @ ''2021-03-01 10:30-11:00'' @ newline
             @ separator @ ''2021-03-01 14:00-15:00'' @ newline)"
proof -
  have m: "main_core ref_lib True (ref_Date 2021 3 1 8 0 0 0 Local) (ref_Date 2021 3 1 8 0 0 0 Local)
     [raw_event [] ''Standup'' [] [] ''2021-03-01T10:30:00+05:30'' ''2021-03-01T11:00:00+05:30'',
      raw_event [] ''Review'' [] [] ''2021-03-01T14:00:00+05:30'' ''2021-03-01T15:00:00+05:30''] =
   Finished (separator @ ''2021-03-01 10:30-11:00'' @ newline
             @ separator @ ''2021-03-01 14:00-15:00'' @ newline)"
    by code_simp
  have h: "ColorId (raw_event [] ''Holiday'' [] [] ''2021-03-02'' ''2021-03-03'') = [] \<and>
   rspStatusFrom (raw_event [] ''Holiday'' [] [] ''2021-03-02'' ''2021-03-03'') \<noteq> ''declined'' \<and>
   startDateFrom (raw_event [] ''Holiday'' [] [] ''2021-03-02'' ''2021-03-03'') = Some ''2021-03-02'' \<and>
   endDateFrom (raw_event [] ''Holiday'' [] [] ''2021-03-02'' ''2021-03-03'') = Some ''2021-03-03''"
    by code_simp
  have g: "ColorId (raw_event [] ''Lunch'' [] [] ''tomorrow'' ''2021-03-01T13:00:00Z'') = [] \<and>
   rspStatusFrom (raw_event [] ''Lunch'' [] [] ''tomorrow'' ''2021-03-01T13:00:00Z'') \<noteq> ''declined'' \<and>
   startDateFrom (raw_event [] ''Lunch'' [] [] ''tomorrow'' ''2021-03-01T13:00:00Z'') = Some ''tomorrow'' \<and>
   endDateFrom (raw_event [] ''Lunch'' [] [] ''tomorrow'' ''2021-03-01T13:00:00Z'') = Some ''2021-03-01T13:00:00Z''"
    by code_simp
  have p: "parseDay ref_lib ''tomorrow'' = None" by code_simp
  have v: "main_step ref_lib False \<lparr>prevDay = zeroTime, evs = [], stdout = [], zones = 0\<rparr>
     (raw_event [] ''Holiday'' [] [] ''2021-03-02'' ''2021-03-03'') =
   Some \<lparr>prevDay = ref_Date 2021 3 2 0 0 0 0 UTC, evs = [],
         stdout = separator @ ''2021-03-02 00:00-00:00 Holiday'' @ replicate 33 CHR '' '' @ '' '' @ newline,
         zones = 2\<rparr>"
    by (subst rendering_layouts_fixed [THEN conjunct1, rule_format, OF h]) code_simp
  have w: "main_step ref_lib False \<lparr>prevDay = zeroTime, evs = [], stdout = [], zones = 0\<rparr>
     (raw_event [] ''Lunch'' [] [] ''tomorrow'' ''2021-03-01T13:00:00Z'') =
   Some \<lparr>prevDay = zeroTime, evs = [],
         stdout = ''tomorrow-13:00 Lunch'' @ replicate 35 CHR '' '' @ '' '' @ newline,
         zones = 2\<rparr>"
    by (subst rendering_layouts_fixed [THEN conjunct1, rule_format, OF g]) code_simp
  show ?thesis using h g p v w m by fast
qed

section \<open>Properties of the URL resolution\<close>

lemma takeWhile_nonempty: "(takeWhile P xs \<noteq> []) = (xs \<noteq> [] \<and> P (hd xs))"
  by (cases xs) auto

lemma take_literal: "(take (length l) t = l) = (\<exists>r. t = l @ r)"
proof
  assume "take (length l) t = l"
  then have "t = l @ drop (length l) t" by (metis append_take_drop_id)
  then show "\<exists>r. t = l @ r" by blast
next
  assume "\<exists>r. t = l @ r"
  then show "take (length l) t = l" by auto
qed

lemma match_tail_literal:
  "match_tail (''://'' @ c # rest) =
     (if isSpace c then None else Some (3 + length (takeWhile (\<lambda>c. \<not> isSpace c) (c # rest))))"
  by (simp add: match_tail_def)

lemma match_tail_Some:
  assumes "match_tail r = Some n"
  shows "\<exists>c rest. r = ''://'' @ c # rest \<and> \<not> isSpace c \<and>
           n = 3 + length (takeWhile (\<lambda>c. \<not> isSpace c) (c # rest))"
proof -
  have t3: "take 3 r = ''://''" and ne: "takeWhile (\<lambda>c. \<not> isSpace c) (drop 3 r) \<noteq> []"
    using assms by (auto simp: match_tail_def split: if_splits)
  have "(take 3 r = ''://'') = (\<exists>q. r = ''://'' @ q)"
    using take_literal [of "''://''" r] by (simp add: eval_nat_numeral)
  then obtain q where q: "r = ''://'' @ q" using t3 by blast
  have "q \<noteq> [] \<and> \<not> isSpace (hd q)" using ne q by (simp add: takeWhile_nonempty)
  then obtain c rest where cr: "q = c # rest" "\<not> isSpace c" by (cases q) auto
  have "match_tail r = Some (3 + length (takeWhile (\<lambda>c. \<not> isSpace c) (c # rest)))"
    using q cr match_tail_literal [of c rest] by simp
  then have "n = 3 + length (takeWhile (\<lambda>c. \<not> isSpace c) (c # rest))" using assms by simp
  then show ?thesis using q cr by blast
qed

lemma match_here_https:
  "match_here (''https://'' @ c # rest) =
     (if isSpace c then None else Some (8 + length (takeWhile (\<lambda>c. \<not> isSpace c) (c # rest))))"
proof -
  have a: "match_tail (CHR '':'' # CHR ''/'' # CHR ''/'' # c # rest) =
     (if isSpace c then None else Some (3 + length (takeWhile (\<lambda>c. \<not> isSpace c) (c # rest))))"
    using match_tail_literal [of c rest] by simp
  have b: "match_tail (CHR ''s'' # CHR '':'' # CHR ''/'' # CHR ''/'' # c # rest) = None"
    by (simp add: match_tail_def)
  show ?thesis by (simp add: match_here_def a b)
qed

lemma match_here_http:
  "match_here (''http://'' @ c # rest) =
     (if isSpace c then None else Some (7 + length (takeWhile (\<lambda>c. \<not> isSpace c) (c # rest))))"
proof -
  have a: "match_tail (CHR '':'' # CHR ''/'' # CHR ''/'' # c # rest) =
     (if isSpace c then None else Some (3 + length (takeWhile (\<lambda>c. \<not> isSpace c) (c # rest))))"
    using match_tail_literal [of c rest] by simp
  show ?thesis by (simp add: match_here_def a)
qed

lemma match_here_Some:
  assumes "match_here t = Some n"
  shows "\<exists>c rest. \<not> isSpace c \<and>
      ((t = ''https://'' @ c # rest \<and> n = 8 + length (takeWhile (\<lambda>c. \<not> isSpace c) (c # rest))) \<or>
       (t = ''http://'' @ c # rest \<and> n = 7 + length (takeWhile (\<lambda>c. \<not> isSpace c) (c # rest))))"
proof -
  have t4: "take 4 t = ''http''" using assms by (auto simp: match_here_def split: if_splits)
  have "(take 4 t = ''http'') = (\<exists>q. t = ''http'' @ q)"
    using take_literal [of "''http''" t] by (simp add: eval_nat_numeral)
  then obtain q where q: "t = ''http'' @ q" using t4 by blast
  have "(\<exists>m. take 1 q = ''s'' \<and> match_tail (drop 1 q) = Some m \<and> n = 5 + m) \<or>
        (\<exists>m. match_tail q = Some m \<and> n = 4 + m)"
    using assms q by (auto simp: match_here_def split: option.splits if_splits)
  then show ?thesis
  proof
    assume "\<exists>m. take 1 q = ''s'' \<and> match_tail (drop 1 q) = Some m \<and> n = 5 + m"
    then obtain m where m: "take 1 q = ''s''" "match_tail (drop 1 q) = Some m" "n = 5 + m"
      by blast
    have "q = CHR ''s'' # drop 1 q" using m(1) by (cases q) auto
    moreover obtain c rest where "drop 1 q = ''://'' @ c # rest" "\<not> isSpace c"
      "m = 3 + length (takeWhile (\<lambda>c. \<not> isSpace c) (c # rest))"
      using match_tail_Some [OF m(2)] by blast
    ultimately have "t = ''https://'' @ c # rest \<and> \<not> isSpace c \<and>
       n = 8 + length (takeWhile (\<lambda>c. \<not> isSpace c) (c # rest))"
      using q m(3) by simp
    then show ?thesis by blast
  next
    assume "\<exists>m. match_tail q = Some m \<and> n = 4 + m"
    then obtain m where m: "match_tail q = Some m" "n = 4 + m" by blast
    obtain c rest where "q = ''://'' @ c # rest" "\<not> isSpace c"
      "m = 3 + length (takeWhile (\<lambda>c. \<not> isSpace c) (c # rest))"
      using match_tail_Some [OF m(1)] by blast
    then have "t = ''http://'' @ c # rest \<and> \<not> isSpace c \<and>
       n = 7 + length (takeWhile (\<lambda>c. \<not> isSpace c) (c # rest))"
      using q m(2) by simp
    then show ?thesis by blast
  qed
qed

lemma url_token_decompose:
  "url_token_at s k =
   (\<exists>c rest. \<not> isSpace c \<and>
      (drop k s = ''https://'' @ c # rest \<or> drop k s = ''http://'' @ c # rest))"
proof -
  have a: "(take 7 (drop k s) = ''http://'') = (\<exists>r. drop k s = ''http://'' @ r)"
    using take_literal [of "''http://''" "drop k s"] by (simp add: eval_nat_numeral)
  have b: "(take 8 (drop k s) = ''https://'') = (\<exists>r. drop k s = ''https://'' @ r)"
    using take_literal [of "''https://''" "drop k s"] by (simp add: eval_nat_numeral)
  have c7: "(\<exists>r. drop k s = ''http://'' @ r \<and> 7 < length (drop k s) \<and> \<not> isSpace (drop k s ! 7)) =
        (\<exists>c rest. \<not> isSpace c \<and> drop k s = ''http://'' @ c # rest)"
  proof
    assume "\<exists>r. drop k s = ''http://'' @ r \<and> 7 < length (drop k s) \<and> \<not> isSpace (drop k s ! 7)"
    then obtain r where r: "drop k s = ''http://'' @ r" "7 < length (drop k s)"
      "\<not> isSpace (drop k s ! 7)" by blast
    then obtain c rest where "r = c # rest" by (cases r) auto
    then show "\<exists>c rest. \<not> isSpace c \<and> drop k s = ''http://'' @ c # rest"
      using r by (auto simp: eval_nat_numeral)
  next
    assume "\<exists>c rest. \<not> isSpace c \<and> drop k s = ''http://'' @ c # rest"
    then obtain c rest where "\<not> isSpace c" "drop k s = ''http://'' @ c # rest" by blast
    then show "\<exists>r. drop k s = ''http://'' @ r \<and> 7 < length (drop k s) \<and> \<not> isSpace (drop k s ! 7)"
      by (intro exI [of _ "c # rest"]) (simp add: eval_nat_numeral)
  qed
  have c8: "(\<exists>r. drop k s = ''https://'' @ r \<and> 8 < length (drop k s) \<and> \<not> isSpace (drop k s ! 8)) =
        (\<exists>c rest. \<not> isSpace c \<and> drop k s = ''https://'' @ c # rest)"
  proof
    assume "\<exists>r. drop k s = ''https://'' @ r \<and> 8 < length (drop k s) \<and> \<not> isSpace (drop k s ! 8)"
    then obtain r where r: "drop k s = ''https://'' @ r" "8 < length (drop k s)"
      "\<not> isSpace (drop k s ! 8)" by blast
    then obtain c rest where "r = c # rest" by (cases r) auto
    then show "\<exists>c rest. \<not> isSpace c \<and> drop k s = ''https://'' @ c # rest"
      using r by (auto simp: eval_nat_numeral)
  next
    assume "\<exists>c rest. \<not> isSpace c \<and> drop k s = ''https://'' @ c # rest"
    then obtain c rest where "\<not> isSpace c" "drop k s = ''https://'' @ c # rest" by blast
    then show "\<exists>r. drop k s = ''https://'' @ r \<and> 8 < length (drop k s) \<and> \<not> isSpace (drop k s ! 8)"
      by (intro exI [of _ "c # rest"]) (simp add: eval_nat_numeral)
  qed
  have "url_token_at s k =
     ((\<exists>r. drop k s = ''http://'' @ r \<and> 7 < length (drop k s) \<and> \<not> isSpace (drop k s ! 7)) \<or>
      (\<exists>r. drop k s = ''https://'' @ r \<and> 8 < length (drop k s) \<and> \<not> isSpace (drop k s ! 8)))"
    unfolding url_token_at_def Let_def a b by blast
  then show ?thesis unfolding c7 c8 by blast
qed

lemma match_here_token: "(match_here (drop k s) \<noteq> None) = url_token_at s k"
proof
  assume "match_here (drop k s) \<noteq> None"
  then obtain n where "match_here (drop k s) = Some n" by blast
  from match_here_Some [OF this] show "url_token_at s k"
    unfolding url_token_decompose by blast
next
  assume "url_token_at s k"
  then obtain c rest where c: "\<not> isSpace c"
    and d: "drop k s = ''https://'' @ c # rest \<or> drop k s = ''http://'' @ c # rest"
    unfolding url_token_decompose by blast
  from d show "match_here (drop k s) \<noteq> None"
  proof
    assume "drop k s = ''https://'' @ c # rest"
    then show ?thesis using c match_here_https [of c rest] by simp
  next
    assume "drop k s = ''http://'' @ c # rest"
    then show ?thesis using c match_here_http [of c rest] by simp
  qed
qed

lemma take_prefix_takeWhile:
  "\<forall>x \<in> set l. P x \<Longrightarrow>
   take (length l + length (takeWhile P r)) (l @ r) = takeWhile P (l @ r)"
  by (simp add: takeWhile_append2 takeWhile_eq_take [symmetric])

lemma match_here_takeWhile:
  "match_here t = Some n \<Longrightarrow> take n t = takeWhile (\<lambda>c. \<not> isSpace c) t"
proof -
  assume "match_here t = Some n"
  then obtain c rest where c: "\<not> isSpace c"
    and d: "(t = ''https://'' @ c # rest \<and> n = 8 + length (takeWhile (\<lambda>c. \<not> isSpace c) (c # rest))) \<or>
       (t = ''http://'' @ c # rest \<and> n = 7 + length (takeWhile (\<lambda>c. \<not> isSpace c) (c # rest)))"
    using match_here_Some [of t n] by blast
  have s1: "\<forall>x \<in> set ''https://''. \<not> isSpace x" by (simp add: isSpace_def)
  have s2: "\<forall>x \<in> set ''http://''. \<not> isSpace x" by (simp add: isSpace_def)
  have l1: "length ''https://'' = 8" by simp
  have l2: "length ''http://'' = 7" by simp
  from d show ?thesis
  proof
    assume "t = ''https://'' @ c # rest \<and> n = 8 + length (takeWhile (\<lambda>c. \<not> isSpace c) (c # rest))"
    then show ?thesis
      using take_prefix_takeWhile [OF s1, of "c # rest"] unfolding l1 by simp
  next
    assume "t = ''http://'' @ c # rest \<and> n = 7 + length (takeWhile (\<lambda>c. \<not> isSpace c) (c # rest))"
    then show ?thesis
      using take_prefix_takeWhile [OF s2, of "c # rest"] unfolding l2 by simp
  qed
qed

lemma FindString_first:
  "match_here (drop k s) = Some n \<Longrightarrow> \<forall>j<k. match_here (drop j s) = None \<Longrightarrow>
   findUrl_FindString s = take n (drop k s)"
proof (induction k arbitrary: s)
  case 0
  then show ?case by simp
next
  case (Suc k)
  have m0: "match_here s = None" using Suc.prems(2) [rule_format, of 0] by simp
  have ne: "s \<noteq> []"
  proof
    assume "s = []"
    then have "match_here (drop (Suc k) s) = None" by (simp add: match_here_def)
    then show False using Suc.prems(1) by simp
  qed
  then obtain c cs where s: "s = c # cs" by (cases s) auto
  have "findUrl_FindString cs = take n (drop k cs)"
  proof (rule Suc.IH)
    show "match_here (drop k cs) = Some n" using Suc.prems(1) s by simp
    show "\<forall>j<k. match_here (drop j cs) = None"
    proof (intro allI impI)
      fix j assume "j < k"
      then show "match_here (drop j cs) = None"
        using Suc.prems(2) [rule_format, of "Suc j"] s by simp
    qed
  qed
  then show ?case using m0 s by simp
qed

lemma FindString_none:
  "\<forall>j. match_here (drop j s) = None \<Longrightarrow> findUrl_FindString s = []"
proof (induction s)
  case Nil
  then show ?case using Nil [rule_format, of 0] by simp
next
  case (Cons c cs)
  have m0: "match_here (c # cs) = None" using Cons.prems [rule_format, of 0] by simp
  have "\<forall>j. match_here (drop j cs) = None"
  proof
    fix j show "match_here (drop j cs) = None"
      using Cons.prems [rule_format, of "Suc j"] by simp
  qed
  then have "findUrl_FindString cs = []" by (rule Cons.IH)
  then show ?case using m0 by simp
qed

lemma FindString_nonempty:
  "match_here (drop k s) = Some n \<Longrightarrow> take n (drop k s) \<noteq> []"
  using match_here_Some [of "drop k s" n] by auto

lemma zoomFrom_loop_first:
  "\<forall>p \<in> set pre. MeetingCode p = [] \<Longrightarrow> MeetingCode ep \<noteq> [] \<Longrightarrow>
   zoomFrom_loop (pre @ ep # post) =
   Uri ep @ '' (meeting:'' @ MeetingCode ep @ '' pass:'' @ Password ep @ '')''"
  by (induction pre) simp_all

lemma zoomFrom_loop_none:
  "\<forall>p \<in> set eps. MeetingCode p = [] \<Longrightarrow> zoomFrom_loop eps = []"
  by (induction eps) simp_all


lemma match_here_no_token: "(match_here (drop k s) = None) = (\<not> url_token_at s k)"
  using match_here_token [of k s] by blast

lemma url_token_short: "length s \<le> 7 \<Longrightarrow> \<not> url_token_at s k"
  by (auto simp: url_token_at_def Let_def)

text \<open>
  C6. \<^verbatim>\<open>urlFrom\<close> resolves in a fixed order. (1) If a URL token starts somewhere in the
  location text, the result is the first such token: from the leftmost position where
  \<^verbatim>\<open>http://\<close> or \<^verbatim>\<open>https://\<close> is followed by a character that is not white space, up to the
  next white space. (2) Otherwise, if conference data is present and some entry point has a
  non-empty meeting code, the result is the first such entry point, as
  \<^verbatim>\<open><uri> (meeting:<code> pass:<password>)\<close>. (3) Otherwise the result is the location text
  as it is, possibly empty.
\<close>

theorem urlFrom_precedence:
  "(url_token_at (Location event) k \<and> (\<forall>j<k. \<not> url_token_at (Location event) j) \<longrightarrow>
      urlFrom event = takeWhile (\<lambda>c. \<not> isSpace c) (drop k (Location event))) \<and>
   ((\<forall>k. \<not> url_token_at (Location event) k) \<and> ConferenceData event = Some conf \<and>
    EntryPoints conf = pre @ ep # post \<and> (\<forall>p \<in> set pre. MeetingCode p = []) \<and>
    MeetingCode ep \<noteq> [] \<longrightarrow>
      urlFrom event = Uri ep @ '' (meeting:'' @ MeetingCode ep @ '' pass:'' @ Password ep @ '')'') \<and>
   ((\<forall>k. \<not> url_token_at (Location event) k) \<and>
    (ConferenceData event = None \<or>
     (\<exists>conf. ConferenceData event = Some conf \<and> (\<forall>p \<in> set (EntryPoints conf). MeetingCode p = []))) \<longrightarrow>
      urlFrom event = Location event)"
proof -
  have first: "urlFrom event = takeWhile (\<lambda>c. \<not> isSpace c) (drop k (Location event))"
    if tok: "url_token_at (Location event) k"
      and least: "\<forall>j<k. \<not> url_token_at (Location event) j"
  proof -
    obtain n where n: "match_here (drop k (Location event)) = Some n"
      using tok match_here_token [of k "Location event"] by auto
    have none: "\<forall>j<k. match_here (drop j (Location event)) = None"
      using least by (simp add: match_here_no_token)
    have f: "findUrl_FindString (Location event) = take n (drop k (Location event))"
      by (rule FindString_first [OF n none])
    have "take n (drop k (Location event)) \<noteq> []" by (rule FindString_nonempty [OF n])
    then have "urlFrom event = take n (drop k (Location event))"
      unfolding urlFrom_def f Let_def by simp
    then show ?thesis using match_here_takeWhile [OF n] by simp
  qed
  have nourl: "findUrl_FindString (Location event) = []"
    if "\<forall>k. \<not> url_token_at (Location event) k"
  proof (rule FindString_none)
    show "\<forall>j. match_here (drop j (Location event)) = None"
      using that by (simp add: match_here_no_token)
  qed
  have second: "urlFrom event = Uri ep @ '' (meeting:'' @ MeetingCode ep @ '' pass:'' @ Password ep @ '')''"
    if "\<forall>k. \<not> url_token_at (Location event) k" and "ConferenceData event = Some conf"
      and "EntryPoints conf = pre @ ep # post" and "\<forall>p \<in> set pre. MeetingCode p = []"
      and "MeetingCode ep \<noteq> []"
  proof -
    have "zoomFrom (ConferenceData event) =
        Uri ep @ '' (meeting:'' @ MeetingCode ep @ '' pass:'' @ Password ep @ '')''"
      using that(2,3) zoomFrom_loop_first [OF that(4,5), of post] by (simp add: zoomFrom_def)
    then show ?thesis unfolding urlFrom_def nourl [OF that(1)] Let_def by simp
  qed
  have third: "urlFrom event = Location event"
    if "\<forall>k. \<not> url_token_at (Location event) k"
      and "ConferenceData event = None \<or>
     (\<exists>conf. ConferenceData event = Some conf \<and> (\<forall>p \<in> set (EntryPoints conf). MeetingCode p = []))"
  proof -
    have "zoomFrom (ConferenceData event) = []"
      using that(2) zoomFrom_loop_none by (auto simp: zoomFrom_def)
    then show ?thesis unfolding urlFrom_def nourl [OF that(1)] Let_def by simp
  qed
  show ?thesis using first second third by blast
qed

theorem urlFrom_precedence_witness:
  "url_token_at ''Join at https://meet.example/abc see you'' 8 \<and>
   list_all (\<lambda>j. \<not> url_token_at ''Join at https://meet.example/abc see you'' j) [0..<8] \<and>
   urlFrom ((raw_event [] ''Sync'' ''Join at https://meet.example/abc see you'' [] [] [])
     \<lparr>ConferenceData := Some \<lparr>EntryPoints =
         [\<lparr>Uri = ''https://zoom.example/j/1'', MeetingCode = ''123'', Password = ''pw''\<rparr>]\<rparr>\<rparr>) =
     ''https://meet.example/abc'' \<and>
   (\<forall>k. \<not> url_token_at ''Room 1'' k) \<and>
   urlFrom ((raw_event [] ''Sync'' ''Room 1'' [] [] [])
     \<lparr>ConferenceData := Some \<lparr>EntryPoints =
         [\<lparr>Uri = ''tel:+1-555'', MeetingCode = [], Password = []\<rparr>,
          \<lparr>Uri = ''https://zoom.example/j/1'', MeetingCode = ''123'', Password = ''pw''\<rparr>]\<rparr>\<rparr>) =
     ''https://zoom.example/j/1 (meeting:123 pass:pw)'' \<and>
   urlFrom (raw_event [] ''Sync'' ''Room 1'' [] [] []) = ''Room 1''"
proof -
  let ?a = "(raw_event [] ''Sync'' ''Join at https://meet.example/abc see you'' [] [] [])
     \<lparr>ConferenceData := Some \<lparr>EntryPoints =
         [\<lparr>Uri = ''https://zoom.example/j/1'', MeetingCode = ''123'', Password = ''pw''\<rparr>]\<rparr>\<rparr>"
  let ?conf = "\<lparr>EntryPoints =
         [\<lparr>Uri = ''tel:+1-555'', MeetingCode = [], Password = []\<rparr>,
          \<lparr>Uri = ''https://zoom.example/j/1'', MeetingCode = ''123'', Password = ''pw''\<rparr>]\<rparr>"
  let ?b = "(raw_event [] ''Sync'' ''Room 1'' [] [] []) \<lparr>ConferenceData := Some ?conf\<rparr>"
  let ?c = "raw_event [] ''Sync'' ''Room 1'' [] [] []"
  have la: "Location ?a = ''Join at https://meet.example/abc see you''" by (simp add: raw_event_def)
  have lb: "Location ?b = ''Room 1''" by (simp add: raw_event_def)
  have lc: "Location ?c = ''Room 1''" by (simp add: raw_event_def)
  have t8: "url_token_at ''Join at https://meet.example/abc see you'' 8" by code_simp
  have l0: "list_all (\<lambda>j. \<not> url_token_at ''Join at https://meet.example/abc see you'' j) [0..<8]"
    by code_simp
  then have l8: "\<forall>j<8. \<not> url_token_at ''Join at https://meet.example/abc see you'' j"
    by (simp add: list_all_iff)
  have no: "\<forall>k. \<not> url_token_at ''Room 1'' k" by (simp add: url_token_short)
  have w1: "urlFrom ?a = ''https://meet.example/abc''"
  proof -
    have "urlFrom ?a = takeWhile (\<lambda>c. \<not> isSpace c) (drop 8 (Location ?a))"
      using urlFrom_precedence [THEN conjunct1, rule_format, of ?a 8] t8 l8 unfolding la by blast
    also have "\<dots> = ''https://meet.example/abc''" unfolding la by code_simp
    finally show ?thesis .
  qed
  have w2: "urlFrom ?b = ''https://zoom.example/j/1 (meeting:123 pass:pw)''"
  proof -
    have "urlFrom ?b = Uri \<lparr>Uri = ''https://zoom.example/j/1'', MeetingCode = ''123'', Password = ''pw''\<rparr>
        @ '' (meeting:'' @ MeetingCode \<lparr>Uri = ''https://zoom.example/j/1'', MeetingCode = ''123'', Password = ''pw''\<rparr>
        @ '' pass:'' @ Password \<lparr>Uri = ''https://zoom.example/j/1'', MeetingCode = ''123'', Password = ''pw''\<rparr> @ '')''"
    proof (rule urlFrom_precedence [THEN conjunct2, THEN conjunct1, rule_format,
          of ?b ?conf "[\<lparr>Uri = ''tel:+1-555'', MeetingCode = [], Password = []\<rparr>]" _ "[]"])
      show "(\<forall>k. \<not> url_token_at (Location ?b) k) \<and> ConferenceData ?b = Some ?conf \<and>
        EntryPoints ?conf = [\<lparr>Uri = ''tel:+1-555'', MeetingCode = [], Password = []\<rparr>]
           @ \<lparr>Uri = ''https://zoom.example/j/1'', MeetingCode = ''123'', Password = ''pw''\<rparr> # [] \<and>
        (\<forall>p \<in> set [\<lparr>Uri = ''tel:+1-555'', MeetingCode = [], Password = []\<rparr>]. MeetingCode p = []) \<and>
        MeetingCode \<lparr>Uri = ''https://zoom.example/j/1'', MeetingCode = ''123'', Password = ''pw''\<rparr> \<noteq> []"
        unfolding lb using no by simp
    qed
    then show ?thesis by simp
  qed
  have w3: "urlFrom ?c = ''Room 1''"
  proof -
    have "urlFrom ?c = Location ?c"
    proof (rule urlFrom_precedence [THEN conjunct2, THEN conjunct2, rule_format])
      show "(\<forall>k. \<not> url_token_at (Location ?c) k) \<and>
        (ConferenceData ?c = None \<or>
         (\<exists>conf. ConferenceData ?c = Some conf \<and> (\<forall>p \<in> set (EntryPoints conf). MeetingCode p = [])))"
        unfolding lc using no by (simp add: raw_event_def)
    qed
    then show ?thesis unfolding lc .
  qed
  show ?thesis using t8 l0 no w1 w2 w3 by blast
qed

end
